theory Spec2Isabelle
  imports Main "HOL-Library.Word"
begin

unbundle bit_operations_syntax

section \<open>The C data model of linux/kstrtox.c\<close>

text \<open>
  Machine integers are words: \<open>unsigned long long\<close> and \<open>long long\<close> are 64 bits
  (the latter read through \<open>sint\<close>), \<open>unsigned int\<close> and \<open>int\<close> are 32 bits, \<open>u16\<close>/\<open>s16\<close>
  and \<open>u8\<close>/\<open>s8\<close> are 16 and 8 bits. The width of \<open>long\<close> depends on the platform and is
  kept as a type parameter of the two \<open>long\<close> wrappers.

  A C string is the list of its bytes before the terminating NUL; reading at or past
  the end of the list yields the terminator. Advancing the pointer by \<open>n\<close> is \<open>drop n\<close>.
  The comparisons of the source only involve ASCII literals, so the signedness of
  \<open>char\<close> plays no role and a character is read through its code in \<open>0..255\<close>.
\<close>

type_synonym u64 = "64 word"
type_synonym u32 = "32 word"
type_synonym u16 = "16 word"
type_synonym u8 = "8 word"

definition cstr_at :: "string \<Rightarrow> nat \<Rightarrow> char" where
  "cstr_at s i = (if i < length s then s ! i else CHR 0x00)"

definition code :: "char \<Rightarrow> int" where
  "code c = int (of_char c)"

text \<open>
  Modelled from the spec: the macros \<open>_tolower\<close> and \<open>isxdigit\<close> come from \<open>ctype.h\<close>, which
  is not among the sources. The spec reads the former as a case-insensitive comparison
  of ASCII letters and the latter as "a valid hex digit" (\<open>0-9\<close>, \<open>a-f\<close>, \<open>A-F\<close>).
\<close>

definition tolower :: "char \<Rightarrow> int" where
  "tolower c = (if 65 \<le> code c \<and> code c \<le> 90 then code c + 32 else code c)"

definition isxdigit :: "char \<Rightarrow> bool" where
  "isxdigit c \<longleftrightarrow> (48 \<le> code c \<and> code c \<le> 57) \<or> (97 \<le> code c \<and> code c \<le> 102)
     \<or> (65 \<le> code c \<and> code c \<le> 70)"

text \<open>The constants of \<open>errno.h\<close> and \<open>limits.h\<close>, and the overflow bit (line 20).\<close>

definition EINVAL :: int where
  "EINVAL = 22"

definition ERANGE :: int where
  "ERANGE = 34"

definition ULLONG_MAX :: u64 where
  "ULLONG_MAX = 18446744073709551615"

definition KSTRTOX_OVERFLOW :: u32 where
  "KSTRTOX_OVERFLOW = push_bit 31 1"

section \<open>Radix resolution (lines 22-36)\<close>

text \<open>
  \<open>_parse_integer_fixup_radix\<close> updates \<open>*base\<close> in place and returns the advanced
  pointer; the model returns both.
\<close>

definition parse_integer_fixup_radix :: "string \<Rightarrow> u32 \<Rightarrow> string \<times> u32" where
  "parse_integer_fixup_radix s base =
     (let base1 = (if base = 0
                   then (if cstr_at s 0 = CHR ''0''
                         then (if tolower (cstr_at s 1) = code CHR ''x'' \<and> isxdigit (cstr_at s 2)
                               then 16 else 8)
                         else 10)
                   else base)
      in if base1 = 16 \<and> cstr_at s 0 = CHR ''0'' \<and> tolower (cstr_at s 1) = code CHR ''x''
         then (drop 2 s, base1)
         else (s, base1))"

section \<open>The digit accumulator (lines 46-83)\<close>

text \<open>
  Lines 58-63: the value of a digit character, or \<open>None\<close> where the loop breaks because
  the character is neither a decimal digit nor a letter \<open>a-f\<close>/\<open>A-F\<close>.
\<close>

definition digit_val :: "char \<Rightarrow> u32 option" where
  "digit_val c =
     (if code CHR ''0'' \<le> code c \<and> code c \<le> code CHR ''9''
      then Some (word_of_int (code c - code CHR ''0''))
      else if code CHR ''a'' \<le> tolower c \<and> tolower c \<le> code CHR ''f''
      then Some (word_of_int (tolower c - code CHR ''a'' + 10))
      else None)"

text \<open>
  The \<open>while (*s)\<close> loop with its locals \<open>res\<close>, \<open>rv\<close> and \<open>overflow\<close>. The overflow
  test is the one of lines 71-74: \<open>val / base\<close> is a division of two
  \<open>unsigned int\<close>, widened and subtracted from \<open>ULLONG_MAX\<close>.
\<close>

fun parse_integer_loop :: "string \<Rightarrow> u32 \<Rightarrow> u64 \<Rightarrow> u32 \<Rightarrow> bool \<Rightarrow> u64 \<times> u32 \<times> bool" where
  "parse_integer_loop [] base res rv overflow = (res, rv, overflow)"
| "parse_integer_loop (c # s) base res rv overflow =
     (if c = CHR 0x00 then (res, rv, overflow)
      else case digit_val c of
        None \<Rightarrow> (res, rv, overflow)
      | Some val \<Rightarrow>
          if val \<ge> base then (res, rv, overflow)
          else
            let overflow1 =
                  (if res AND push_bit 60 (NOT 0) \<noteq> 0
                   then (if res > ULLONG_MAX - ucast (val div base) then True else overflow)
                   else overflow)
            in parse_integer_loop s base (res * ucast base + ucast val) (rv + 1) overflow1)"

text \<open>\<open>_parse_integer\<close> returns \<open>rv\<close>, with the overflow bit or-ed in, and the stored \<open>*p\<close>.\<close>

definition parse_integer :: "string \<Rightarrow> u32 \<Rightarrow> u32 \<times> u64" where
  "parse_integer s base =
     (case parse_integer_loop s base 0 0 False of
        (res, rv, overflow) \<Rightarrow> ((if overflow then rv OR KSTRTOX_OVERFLOW else rv), res))"

section \<open>The 64-bit parsers (lines 85-165)\<close>

text \<open>
  Every parser takes the value its result slot holds before the call and returns the
  return code together with the value the slot holds after the call. The static
  \<open>_kstrtoull\<close> is \<open>internal_kstrtoull\<close> here, since a name cannot start with an underscore.
\<close>

definition internal_kstrtoull :: "string \<Rightarrow> u32 \<Rightarrow> u64 \<Rightarrow> int \<times> u64" where
  "internal_kstrtoull s base res =
     (case parse_integer_fixup_radix s base of (s1, base1) \<Rightarrow>
      case parse_integer s1 base1 of (rv, res1) \<Rightarrow>
        if rv AND KSTRTOX_OVERFLOW \<noteq> 0 then (- ERANGE, res)
        else if rv = 0 then (- EINVAL, res)
        else
          let s2 = drop (unat rv) s1;
              s3 = (if cstr_at s2 0 = CHR 0x0A then drop 1 s2 else s2)
          in if cstr_at s3 0 \<noteq> CHR 0x00 then (- EINVAL, res)
             else (0, res1))"

definition kstrtoull :: "string \<Rightarrow> u32 \<Rightarrow> u64 \<Rightarrow> int \<times> u64" where
  "kstrtoull s base res =
     (let s1 = (if cstr_at s 0 = CHR ''+'' then drop 1 s else s)
      in internal_kstrtoull s1 base res)"

text \<open>
  The local \<open>tmp\<close> of the callers below is uninitialised in the source. It is only read
  after a successful parse has stored into it; the model starts it at 0.
\<close>

definition kstrtoll :: "string \<Rightarrow> u32 \<Rightarrow> u64 \<Rightarrow> int \<times> u64" where
  "kstrtoll s base res =
     (if cstr_at s 0 = CHR ''-''
      then (case internal_kstrtoull (drop 1 s) base 0 of (rv, tmp) \<Rightarrow>
              if rv < 0 then (rv, res)
              else if 0 <s - tmp then (- ERANGE, res)
              else (0, - tmp))
      else (case kstrtoull s base 0 of (rv, tmp) \<Rightarrow>
              if rv < 0 then (rv, res)
              else if tmp <s 0 then (- ERANGE, res)
              else (0, tmp)))"

section \<open>The width-narrowing wrappers (lines 168-311)\<close>

definition internal_kstrtoul :: "string \<Rightarrow> u32 \<Rightarrow> 'l::len word \<Rightarrow> int \<times> 'l word" where
  "internal_kstrtoul s base res =
     (case kstrtoull s base 0 of (rv, tmp) \<Rightarrow>
        if rv < 0 then (rv, res)
        else if tmp \<noteq> ucast (ucast tmp :: 'l word) then (- ERANGE, res)
        else (0, ucast tmp))"

definition internal_kstrtol :: "string \<Rightarrow> u32 \<Rightarrow> 'l::len word \<Rightarrow> int \<times> 'l word" where
  "internal_kstrtol s base res =
     (case kstrtoll s base 0 of (rv, tmp) \<Rightarrow>
        if rv < 0 then (rv, res)
        else if tmp \<noteq> scast (scast tmp :: 'l word) then (- ERANGE, res)
        else (0, scast tmp))"

definition kstrtouint :: "string \<Rightarrow> u32 \<Rightarrow> u32 \<Rightarrow> int \<times> u32" where
  "kstrtouint s base res =
     (case kstrtoull s base 0 of (rv, tmp) \<Rightarrow>
        if rv < 0 then (rv, res)
        else if tmp \<noteq> ucast (ucast tmp :: u32) then (- ERANGE, res)
        else (0, ucast tmp))"

definition kstrtoint :: "string \<Rightarrow> u32 \<Rightarrow> u32 \<Rightarrow> int \<times> u32" where
  "kstrtoint s base res =
     (case kstrtoll s base 0 of (rv, tmp) \<Rightarrow>
        if rv < 0 then (rv, res)
        else if tmp \<noteq> scast (scast tmp :: u32) then (- ERANGE, res)
        else (0, scast tmp))"

definition kstrtou16 :: "string \<Rightarrow> u32 \<Rightarrow> u16 \<Rightarrow> int \<times> u16" where
  "kstrtou16 s base res =
     (case kstrtoull s base 0 of (rv, tmp) \<Rightarrow>
        if rv < 0 then (rv, res)
        else if tmp \<noteq> ucast (ucast tmp :: u16) then (- ERANGE, res)
        else (0, ucast tmp))"

definition kstrtos16 :: "string \<Rightarrow> u32 \<Rightarrow> u16 \<Rightarrow> int \<times> u16" where
  "kstrtos16 s base res =
     (case kstrtoll s base 0 of (rv, tmp) \<Rightarrow>
        if rv < 0 then (rv, res)
        else if tmp \<noteq> scast (scast tmp :: u16) then (- ERANGE, res)
        else (0, scast tmp))"

definition kstrtou8 :: "string \<Rightarrow> u32 \<Rightarrow> u8 \<Rightarrow> int \<times> u8" where
  "kstrtou8 s base res =
     (case kstrtoull s base 0 of (rv, tmp) \<Rightarrow>
        if rv < 0 then (rv, res)
        else if tmp \<noteq> ucast (ucast tmp :: u8) then (- ERANGE, res)
        else (0, ucast tmp))"

definition kstrtos8 :: "string \<Rightarrow> u32 \<Rightarrow> u8 \<Rightarrow> int \<times> u8" where
  "kstrtos8 s base res =
     (case kstrtoll s base 0 of (rv, tmp) \<Rightarrow>
        if rv < 0 then (rv, res)
        else if tmp \<noteq> scast (scast tmp :: u8) then (- ERANGE, res)
        else (0, scast tmp))"

section \<open>The boolean parser (lines 322-357)\<close>

text \<open>
  The argument is a pointer that may be \<open>NULL\<close> (\<open>None\<close>). The inner \<open>default: break\<close>
  falls through to the outer one, so both lead to the final \<open>return -EINVAL\<close>.
\<close>

definition kstrtobool :: "string option \<Rightarrow> bool \<Rightarrow> int \<times> bool" where
  "kstrtobool sp res =
     (case sp of
        None \<Rightarrow> (- EINVAL, res)
      | Some s \<Rightarrow>
          if cstr_at s 0 = CHR ''y'' \<or> cstr_at s 0 = CHR ''Y'' \<or> cstr_at s 0 = CHR ''1''
          then (0, True)
          else if cstr_at s 0 = CHR ''n'' \<or> cstr_at s 0 = CHR ''N'' \<or> cstr_at s 0 = CHR ''0''
          then (0, False)
          else if cstr_at s 0 = CHR ''o'' \<or> cstr_at s 0 = CHR ''O''
          then (if cstr_at s 1 = CHR ''n'' \<or> cstr_at s 1 = CHR ''N'' then (0, True)
                else if cstr_at s 1 = CHR ''f'' \<or> cstr_at s 1 = CHR ''F'' then (0, False)
                else (- EINVAL, res))
          else (- EINVAL, res))"

section \<open>The specification's vocabulary\<close>

text \<open>
  These definitions follow the words of the specification, not the code: a digit
  character is one of \<open>0-9\<close>, \<open>a-f\<close>, \<open>A-F\<close> with values 0 to 15; it is valid for a base
  when its value is below the base; the digits consumed are the maximal leading run
  of valid digits; their exact mathematical value is the positional sum, an unbounded
  natural number.
\<close>

definition spec_digit :: "char \<Rightarrow> nat option" where
  "spec_digit c =
     (let n = (of_char c :: nat)
      in if 48 \<le> n \<and> n \<le> 57 then Some (n - 48)
         else if 97 \<le> n \<and> n \<le> 102 then Some (n - 87)
         else if 65 \<le> n \<and> n \<le> 70 then Some (n - 55)
         else None)"

definition valid_digit :: "nat \<Rightarrow> char \<Rightarrow> bool" where
  "valid_digit b c = (case spec_digit c of None \<Rightarrow> False | Some d \<Rightarrow> d < b)"

definition digit_of :: "char \<Rightarrow> nat" where
  "digit_of c = (case spec_digit c of None \<Rightarrow> 0 | Some d \<Rightarrow> d)"

definition digit_run :: "nat \<Rightarrow> string \<Rightarrow> string" where
  "digit_run b s = takeWhile (valid_digit b) s"

definition digits_from :: "nat \<Rightarrow> nat \<Rightarrow> string \<Rightarrow> nat" where
  "digits_from b a ds = foldl (\<lambda>a c. a * b + digit_of c) a ds"

definition digits_value :: "nat \<Rightarrow> string \<Rightarrow> nat" where
  "digits_value b ds = digits_from b 0 ds"

text \<open>What is left of the string after the digits and at most one newline.\<close>

definition after_digits :: "string \<Rightarrow> string \<Rightarrow> string" where
  "after_digits run s1 =
     (let s2 = drop (length run) s1
      in if cstr_at s2 0 = CHR 0x0A then drop 1 s2 else s2)"

text \<open>
  The condition under which the specification has the unsigned parser fail with
  \<open>INVALID\<close>: after an optional leading \<open>+\<close> and the radix prefix, no digit is
  consumed, or a character other than the terminator remains after the digits and
  at most one newline.
\<close>

definition no_digits_or_trailing :: "string \<Rightarrow> u32 \<Rightarrow> bool" where
  "no_digits_or_trailing s base =
     (case parse_integer_fixup_radix (if cstr_at s 0 = CHR ''+'' then drop 1 s else s) base of
        (s1, b1) \<Rightarrow>
          digit_run (unat b1) s1 = []
          \<or> cstr_at (after_digits (digit_run (unat b1) s1) s1) 0 \<noteq> CHR 0x00)"

text \<open>
  The contract of a width-narrowing wrapper, in the specification's words: it delegates
  to the 64-bit parser; it succeeds exactly when that parse succeeds and its result,
  narrowed to the target type and widened back, is the original; on success the slot
  receives the narrowed value; a failed round trip is \<open>-ERANGE\<close> and a failed parse
  is passed on, the slot keeping its value in both cases.
\<close>

definition lossless_narrowing ::
  "int \<times> u64 \<Rightarrow> (u64 \<Rightarrow> 'n) \<Rightarrow> ('n \<Rightarrow> u64) \<Rightarrow> 'n \<Rightarrow> int \<times> 'n \<Rightarrow> bool" where
  "lossless_narrowing wide narrow widen slot out \<longleftrightarrow>
     (fst out = 0 \<longleftrightarrow> fst wide = 0 \<and> widen (narrow (snd wide)) = snd wide)
     \<and> (fst out = 0 \<longrightarrow> snd out = narrow (snd wide))
     \<and> (fst wide = 0 \<and> widen (narrow (snd wide)) \<noteq> snd wide \<longrightarrow> out = (- ERANGE, slot))
     \<and> (fst wide \<noteq> 0 \<longrightarrow> out = (fst wide, slot))"

section \<open>Reading a C string\<close>

lemma cstr_at_Nil [simp]: "cstr_at [] i = CHR 0x00"
  by (simp add: cstr_at_def)

lemma cstr_at_Cons_0 [simp]: "cstr_at (c # s) 0 = c"
  by (simp add: cstr_at_def)

lemma cstr_at_Cons_Suc [simp]: "cstr_at (c # s) (Suc i) = cstr_at s i"
  by (simp add: cstr_at_def)

lemma cstr_at_Cons_1 [simp]: "cstr_at (c # s) 1 = cstr_at s 0"
  by (simp add: cstr_at_def)

lemma cstr_at_Cons_2 [simp]: "cstr_at (c # s) 2 = cstr_at s 1"
  by (simp add: cstr_at_def)

section \<open>The digit decoding of the source agrees with the specification's digits\<close>

lemma ULLONG_MAX_minus1: "ULLONG_MAX = - 1"
  by (simp add: ULLONG_MAX_def)

lemma digit_val_spec: "digit_val c = map_option of_nat (spec_digit c)"
proof -
  define n where "n = (of_char c :: nat)"
  have c: "code c = int n" by (simp add: code_def n_def)
  show ?thesis
    unfolding digit_val_def spec_digit_def tolower_def Let_def c n_def [symmetric]
    by (auto simp: code_def)
qed

lemma spec_digit_lt16: "spec_digit c = Some d \<Longrightarrow> d < 16"
  by (auto simp: spec_digit_def Let_def split: if_splits)

lemma spec_digit_NUL: "spec_digit (CHR 0x00) = None"
  by (simp add: spec_digit_def)

lemma unat_small_u32: "d < 16 \<Longrightarrow> unat (word_of_nat d :: u32) = d"
  by (simp add: unat_of_nat)

lemma ucast_small_u32: "d < 16 \<Longrightarrow> (ucast (word_of_nat d :: u32) :: u64) = word_of_nat d"
  by (simp add: unsigned_of_nat take_bit_nat_eq_self)

lemma small_less_base: "d < 16 \<Longrightarrow> (word_of_nat d :: u32) < base \<longleftrightarrow> d < unat base"
  by (simp add: word_less_nat_alt unat_small_u32)

section \<open>The accumulator loop\<close>

text \<open>
  Inside the loop \<open>val < base\<close> holds, so \<open>val / base\<close> is 0 and the test of line 72
  compares \<open>res\<close> with \<open>ULLONG_MAX\<close> itself: it never fires.
\<close>

lemma overflow_test_dead:
  fixes val base :: u32 and res :: u64
  assumes "val < base"
  shows "\<not> res > ULLONG_MAX - ucast (val div base)"
  using assms by (simp add: div_word_less ULLONG_MAX_minus1)

lemma loop_step_invalid:
  "\<not> valid_digit (unat base) c \<Longrightarrow> parse_integer_loop (c # s) base res rv ov = (res, rv, ov)"
  using spec_digit_lt16 [of c]
  by (auto simp: valid_digit_def digit_val_spec small_less_base not_less not_le
      split: option.splits)

lemma loop_step_valid:
  assumes "valid_digit (unat base) c"
  shows "parse_integer_loop (c # s) base (word_of_nat a) rv ov
       = parse_integer_loop s base (word_of_nat (a * unat base + digit_of c)) (rv + 1) ov"
proof -
  from assms obtain d where d: "spec_digit c = Some d" "d < unat base"
    by (auto simp: valid_digit_def split: option.splits)
  have d16: "d < 16" using d(1) by (rule spec_digit_lt16)
  have nz: "c \<noteq> CHR 0x00" using d(1) spec_digit_NUL by auto
  have lt: "(word_of_nat d :: u32) < base" using d16 d(2) by (simp add: small_less_base)
  have nle: "\<not> base \<le> (word_of_nat d :: u32)" using lt by (simp add: not_le)
  have dead: "\<not> (word_of_nat a :: u64) > ULLONG_MAX - ucast ((word_of_nat d :: u32) div base)"
    using lt by (rule overflow_test_dead)
  have acc: "(word_of_nat a :: u64) * ucast base + ucast (word_of_nat d :: u32)
           = word_of_nat (a * unat base + d)"
    using d16 by (simp add: ucast_small_u32)
  show ?thesis
    using nz nle dead acc
    by (simp add: digit_val_spec d(1) digit_of_def Let_def ucast_small_u32 [OF d16])
qed

lemma parse_integer_loop_run:
  "parse_integer_loop s base (word_of_nat a) rv ov
   = (word_of_nat (digits_from (unat base) a (digit_run (unat base) s)),
      rv + word_of_nat (length (digit_run (unat base) s)), ov)"
proof (induction s arbitrary: a rv ov)
  case Nil
  show ?case by (simp add: digit_run_def digits_from_def)
next
  case (Cons c s)
  show ?case
  proof (cases "valid_digit (unat base) c")
    case True
    have "parse_integer_loop (c # s) base (word_of_nat a) rv ov
        = parse_integer_loop s base (word_of_nat (a * unat base + digit_of c)) (rv + 1) ov"
      using True by (rule loop_step_valid)
    also have "\<dots> = (word_of_nat (digits_from (unat base) (a * unat base + digit_of c)
                                   (digit_run (unat base) s)),
                       rv + 1 + word_of_nat (length (digit_run (unat base) s)), ov)"
      by (rule Cons.IH)
    finally show ?thesis
      using True by (simp add: digit_run_def digits_from_def)
  next
    case False
    have "parse_integer_loop (c # s) base (word_of_nat a) rv ov = (word_of_nat a, rv, ov)"
      using False by (rule loop_step_invalid)
    then show ?thesis
      using False by (simp add: digit_run_def digits_from_def del: parse_integer_loop.simps)
  qed
qed

text \<open>
  Hence \<open>_parse_integer\<close> returns the length of the digit run, reduced to 32 bits and
  with no overflow bit or-ed in, and stores the exact value reduced to 64 bits.
\<close>

lemma parse_integer_run:
  "parse_integer s base
   = (word_of_nat (length (digit_run (unat base) s)),
      word_of_nat (digits_value (unat base) (digit_run (unat base) s)))"
  using parse_integer_loop_run [of s base 0 0 False]
  by (simp add: parse_integer_def digits_value_def)

section \<open>The unsigned 64-bit parser on strings shorter than \<open>2 ^ 31\<close> characters\<close>

lemma fixup_radix_length:
  "parse_integer_fixup_radix s base = (s1, b1) \<Longrightarrow> length s1 \<le> length s"
  by (auto simp: parse_integer_fixup_radix_def Let_def split: if_splits)

lemma digit_run_length: "length (digit_run b s) \<le> length s"
  by (simp add: digit_run_def length_takeWhile_le)

lemma count_no_overflow_bit:
  assumes "n < 2 ^ 31"
  shows "(word_of_nat n :: u32) AND KSTRTOX_OVERFLOW = 0"
proof -
  have "\<not> bit n 31" using assms by (simp add: bit_iff_odd)
  then have "\<not> bit (word_of_nat n :: u32) 31" by (simp add: bit_of_nat_iff)
  then have "(word_of_nat n :: u32) AND 2 ^ 31 = 0"
    by (rule and_exp_eq_0_iff_not_bit [THEN iffD2])
  then show ?thesis by (simp add: KSTRTOX_OVERFLOW_def)
qed

lemma count_unat: "n < 2 ^ 31 \<Longrightarrow> unat (word_of_nat n :: u32) = n"
  by (simp add: unat_of_nat)

lemma count_zero_iff: "n < 2 ^ 31 \<Longrightarrow> (word_of_nat n :: u32) = 0 \<longleftrightarrow> n = 0"
  by (simp add: unat_eq_0 [symmetric] unat_of_nat)

lemma internal_kstrtoull_short:
  assumes len: "length s < 2 ^ 31" and fx: "parse_integer_fixup_radix s base = (s1, b1)"
  shows "internal_kstrtoull s base res =
         (if digit_run (unat b1) s1 = [] then (- EINVAL, res)
          else if cstr_at (after_digits (digit_run (unat b1) s1) s1) 0 \<noteq> CHR 0x00
               then (- EINVAL, res)
          else (0, word_of_nat (digits_value (unat b1) (digit_run (unat b1) s1))))"
proof -
  let ?run = "digit_run (unat b1) s1"
  have "length ?run \<le> length s"
    using digit_run_length [of "unat b1" s1] fixup_radix_length [OF fx] by simp
  then have n: "length ?run < 2 ^ 31" using len by simp
  show ?thesis
    by (simp add: internal_kstrtoull_def fx parse_integer_run count_no_overflow_bit [OF n]
        count_unat [OF n] count_zero_iff [OF n] after_digits_def Let_def)
qed

section \<open>Evaluation helpers\<close>

lemma fixup_radix_plain:
  "base \<noteq> 0 \<Longrightarrow> base \<noteq> 16 \<Longrightarrow> parse_integer_fixup_radix s base = (s, base)"
  by (simp add: parse_integer_fixup_radix_def)

lemma kstrtoull_no_plus:
  "cstr_at s 0 \<noteq> CHR ''+'' \<Longrightarrow> kstrtoull s base res = internal_kstrtoull s base res"
  by (simp add: kstrtoull_def)

lemmas eval_digits = digit_run_def valid_digit_def digits_value_def digits_from_def
  digit_of_def spec_digit_def after_digits_def

section \<open>Overflow of the accumulator\<close>

lemma parse_integer_never_flags:
  assumes "length s < 2 ^ 31"
  shows "fst (parse_integer s base) AND KSTRTOX_OVERFLOW = 0"
proof -
  have "length (digit_run (unat base) s) < 2 ^ 31"
    using digit_run_length [of "unat base" s] assms by simp
  then show ?thesis by (simp add: parse_integer_run count_no_overflow_bit)
qed

text \<open>
  C1. The accumulator is meant to set its overflow flag exactly when the exact value of
  the consumed digits exceeds \<open>2 ^ 64 - 1\<close>. On the decimal text of \<open>2 ^ 64\<close> the code
  consumes all 20 digits and stores the value reduced modulo \<open>2 ^ 64\<close>, which is 0, but
  returns the bare count: the overflow bit is not set although the exact value is
  \<open>2 ^ 64\<close>. The test of line 72 subtracts \<open>val / base\<close>, which is 0, from
  \<open>ULLONG_MAX\<close>, so it can never fire (\<open>overflow_test_dead\<close>), and no string
  shorter than \<open>2 ^ 31\<close> characters ever gets the bit (\<open>parse_integer_never_flags\<close>).
\<close>

theorem parse_integer_overflow_unflagged:
  "digits_value 10 ''18446744073709551616'' = 2 ^ 64
   \<and> parse_integer ''18446744073709551616'' 10 = (20, 0)
   \<and> fst (parse_integer ''18446744073709551616'' 10) AND KSTRTOX_OVERFLOW = 0"
  by (simp add: parse_integer_run eval_digits KSTRTOX_OVERFLOW_def)

text \<open>
  C2. \<open>kstrtoull\<close> is meant to fail with \<open>-ERANGE\<close> when the value of the digits exceeds
  \<open>2 ^ 64 - 1\<close>. The decimal text of \<open>2 ^ 64 - 1\<close> parses to \<open>2 ^ 64 - 1\<close>, as claimed,
  but the decimal text of \<open>2 ^ 64\<close> is accepted too: the call returns 0 and stores the
  wrapped value 0 into the result slot.
\<close>

theorem kstrtoull_overflow_accepted:
  "kstrtoull ''18446744073709551615'' 10 7 = (0, 18446744073709551615)
   \<and> kstrtoull ''18446744073709551616'' 10 7 = (0, 0)"
proof -
  have a: "kstrtoull ''18446744073709551615'' 10 7 = (0, 18446744073709551615)"
    by (simp add: kstrtoull_no_plus
        internal_kstrtoull_short [OF _ fixup_radix_plain [of 10]] eval_digits)
  have b: "kstrtoull ''18446744073709551616'' 10 7 = (0, 0)"
    by (simp add: kstrtoull_no_plus
        internal_kstrtoull_short [OF _ fixup_radix_plain [of 10]] eval_digits)
  show ?thesis using a b by simp
qed

section \<open>Return codes and result slots\<close>

lemma internal_kstrtoull_slot:
  "internal_kstrtoull s base res =
     (if fst (internal_kstrtoull s base t) = 0 then (0, snd (internal_kstrtoull s base t))
      else (fst (internal_kstrtoull s base t), res))"
  by (simp add: internal_kstrtoull_def Let_def EINVAL_def ERANGE_def split: prod.splits)

lemma internal_kstrtoull_rc:
  "fst (internal_kstrtoull s base res) = 0 \<or> fst (internal_kstrtoull s base res) = - EINVAL
   \<or> fst (internal_kstrtoull s base res) = - ERANGE"
  by (simp add: internal_kstrtoull_def Let_def split: prod.splits)

lemma kstrtoull_slot:
  "kstrtoull s base res =
     (if fst (kstrtoull s base t) = 0 then (0, snd (kstrtoull s base t))
      else (fst (kstrtoull s base t), res))"
  unfolding kstrtoull_def Let_def by (rule internal_kstrtoull_slot)

lemma kstrtoull_rc:
  "fst (kstrtoull s base res) = 0 \<or> fst (kstrtoull s base res) = - EINVAL
   \<or> fst (kstrtoull s base res) = - ERANGE"
  unfolding kstrtoull_def Let_def by (rule internal_kstrtoull_rc)

lemma rc_neg_iff:
  "rc = 0 \<or> rc = - EINVAL \<or> rc = - ERANGE \<Longrightarrow> rc < 0 \<longleftrightarrow> rc \<noteq> 0"
  by (auto simp: EINVAL_def ERANGE_def)

lemma kstrtoll_rc:
  "fst (kstrtoll s base res) = 0 \<or> fst (kstrtoll s base res) = - EINVAL
   \<or> fst (kstrtoll s base res) = - ERANGE"
  using internal_kstrtoull_rc [of "drop 1 s" base 0] kstrtoull_rc [of s base 0]
  by (auto simp: kstrtoll_def split: prod.splits)

lemma kstrtoll_slot:
  "kstrtoll s base res =
     (if fst (kstrtoll s base t) = 0 then (0, snd (kstrtoll s base t))
      else (fst (kstrtoll s base t), res))"
  by (auto simp: kstrtoll_def EINVAL_def ERANGE_def split: prod.splits)

lemma unsigned_wrapper_shape:
  fixes narrow :: "u64 \<Rightarrow> 'n" and widen :: "'n \<Rightarrow> u64" and r :: 'n
  shows "(case kstrtoull s base 0 of (rv, tmp) \<Rightarrow>
            if rv < 0 then (rv, r)
            else if tmp \<noteq> widen (narrow tmp) then (- ERANGE, r)
            else (0, narrow tmp))
       = (if fst (kstrtoull s base t) \<noteq> 0 then (fst (kstrtoull s base t), r)
          else if widen (narrow (snd (kstrtoull s base t))) \<noteq> snd (kstrtoull s base t)
               then (- ERANGE, r)
          else (0, narrow (snd (kstrtoull s base t))))"
proof -
  obtain rv tmp where w: "kstrtoull s base 0 = (rv, tmp)" by (cases "kstrtoull s base 0")
  have neg: "rv < 0 \<longleftrightarrow> rv \<noteq> 0"
    using kstrtoull_rc [of s base 0] by (simp add: w rc_neg_iff)
  have t: "kstrtoull s base t = (if rv = 0 then (0, tmp) else (rv, t))"
    using kstrtoull_slot [of s base t 0] by (simp add: w)
  show ?thesis by (auto simp: w neg t)
qed

lemma signed_wrapper_shape:
  fixes narrow :: "u64 \<Rightarrow> 'n" and widen :: "'n \<Rightarrow> u64" and r :: 'n
  shows "(case kstrtoll s base 0 of (rv, tmp) \<Rightarrow>
            if rv < 0 then (rv, r)
            else if tmp \<noteq> widen (narrow tmp) then (- ERANGE, r)
            else (0, narrow tmp))
       = (if fst (kstrtoll s base t) \<noteq> 0 then (fst (kstrtoll s base t), r)
          else if widen (narrow (snd (kstrtoll s base t))) \<noteq> snd (kstrtoll s base t)
               then (- ERANGE, r)
          else (0, narrow (snd (kstrtoll s base t))))"
proof -
  obtain rv tmp where w: "kstrtoll s base 0 = (rv, tmp)" by (cases "kstrtoll s base 0")
  have neg: "rv < 0 \<longleftrightarrow> rv \<noteq> 0"
    using kstrtoll_rc [of s base 0] by (simp add: w rc_neg_iff)
  have t: "kstrtoll s base t = (if rv = 0 then (0, tmp) else (rv, t))"
    using kstrtoll_slot [of s base t 0] by (simp add: w)
  show ?thesis by (auto simp: w neg t)
qed

lemmas wrapper_defs = internal_kstrtoul_def internal_kstrtol_def kstrtouint_def kstrtoint_def
  kstrtou16_def kstrtos16_def kstrtou8_def kstrtos8_def

lemma ERANGE_nonzero: "- ERANGE \<noteq> 0" "ERANGE \<noteq> 0"
  by (simp_all add: ERANGE_def)

lemma EINVAL_nonzero: "- EINVAL \<noteq> 0" "EINVAL \<noteq> 0"
  by (simp_all add: EINVAL_def)


section \<open>Whole-string characterisations\<close>

lemma kstrtoull_short:
  assumes "length s < 2 ^ 31"
  shows "kstrtoull s base res =
     (case parse_integer_fixup_radix (if cstr_at s 0 = CHR ''+'' then drop 1 s else s) base of
        (s1, b1) \<Rightarrow>
          if digit_run (unat b1) s1 = [] then (- EINVAL, res)
          else if cstr_at (after_digits (digit_run (unat b1) s1) s1) 0 \<noteq> CHR 0x00
               then (- EINVAL, res)
          else (0, word_of_nat (digits_value (unat b1) (digit_run (unat b1) s1))))"
proof -
  let ?s0 = "if cstr_at s 0 = CHR ''+'' then drop 1 s else s"
  obtain s1 b1 where fx: "parse_integer_fixup_radix ?s0 base = (s1, b1)"
    by (cases "parse_integer_fixup_radix ?s0 base")
  have "length ?s0 \<le> length s" by simp
  then have "length ?s0 < 2 ^ 31" using assms by (rule le_less_trans)
  from internal_kstrtoull_short [OF this fx, of res] show ?thesis
    by (simp add: kstrtoull_def fx Let_def)
qed

lemmas eval_radix = parse_integer_fixup_radix_def tolower_def code_def isxdigit_def


lemma valid_digit_not_x: "valid_digit b c \<Longrightarrow> tolower c \<noteq> code CHR ''x''"
  by (auto simp: valid_digit_def spec_digit_def tolower_def code_def Let_def
      split: option.splits if_splits)

lemma valid_digit_not_sign: "valid_digit b c \<Longrightarrow> c \<noteq> CHR ''+'' \<and> c \<noteq> CHR ''-''"
  by (auto simp: valid_digit_def spec_digit_def)

lemma valid_digit_base0: "\<not> valid_digit 0 c"
  by (simp add: valid_digit_def split: option.splits)

lemma NUL_not_x: "tolower (CHR 0x00) \<noteq> code CHR ''x''"
  by (simp add: tolower_def code_def)

lemma cstr_at_cases: "cstr_at s i = CHR 0x00 \<or> cstr_at s i \<in> set s"
  by (simp add: cstr_at_def)

lemma fixup_radix_digits:
  assumes "ds \<noteq> []" and "\<forall>c\<in>set ds. valid_digit (unat base) c"
  shows "parse_integer_fixup_radix ds base = (ds, base)"
proof -
  have "valid_digit (unat base) (hd ds)" using assms by simp
  then have "unat base \<noteq> 0" using valid_digit_base0 by (cases "unat base = 0") auto
  then have b0: "base \<noteq> 0" by auto
  have "tolower (cstr_at ds 1) \<noteq> code CHR ''x''"
    using cstr_at_cases [of ds 1] assms(2) valid_digit_not_x NUL_not_x by metis
  then show ?thesis using b0 by (simp add: parse_integer_fixup_radix_def)
qed

lemma digit_run_all:
  "\<forall>c\<in>set ds. valid_digit b c \<Longrightarrow> digit_run b ds = ds"
  by (simp add: digit_run_def)

lemma after_digits_all: "after_digits ds ds = []"
  by (simp add: after_digits_def)

lemma kstrtoull_digits:
  assumes ne: "ds \<noteq> []" and ok: "\<forall>c\<in>set ds. valid_digit (unat base) c"
    and len: "length ds < 2 ^ 31"
  shows "kstrtoull ds base r = (0, word_of_nat (digits_value (unat base) ds))"
proof -
  have "valid_digit (unat base) (hd ds)" using ne ok by simp
  then have "hd ds \<noteq> CHR ''+''" using valid_digit_not_sign by blast
  then have np: "cstr_at ds 0 \<noteq> CHR ''+''" using ne by (cases ds) simp_all
  show ?thesis
    using ne np
    by (simp add: kstrtoull_short [OF len] fixup_radix_digits [OF ne ok]
        digit_run_all [OF ok] after_digits_all)
qed

lemma internal_kstrtoull_no_digits:
  assumes "parse_integer_fixup_radix s base = (s1, b1)" and "digit_run (unat b1) s1 = []"
  shows "internal_kstrtoull s base r = (- EINVAL, r)"
  using assms by (simp add: internal_kstrtoull_def parse_integer_run)

lemma internal_kstrtoull_bad_first:
  assumes "\<not> valid_digit 16 c"
  shows "internal_kstrtoull (c # t) base r = (- EINVAL, r)"
proof -
  have n0: "c \<noteq> CHR ''0''" using assms by (auto simp: valid_digit_def spec_digit_def)
  have mono: "\<not> valid_digit b c" for b
    using assms spec_digit_lt16 [of c] by (auto simp: valid_digit_def split: option.splits)
  obtain b1 where fx: "parse_integer_fixup_radix (c # t) base = (c # t, b1)"
    using n0 by (simp add: parse_integer_fixup_radix_def Let_def)
  show ?thesis
    by (rule internal_kstrtoull_no_digits [OF fx]) (simp add: digit_run_def mono)
qed

section \<open>Radix resolution\<close>

lemma char_is_x: "(of_char c :: nat) = 120 \<longleftrightarrow> c = CHR ''x''"
  using of_char_eq_iff [of c "CHR ''x''", where ?'a = nat] by simp

lemma char_is_X: "(of_char c :: nat) = 88 \<longleftrightarrow> c = CHR ''X''"
  using of_char_eq_iff [of c "CHR ''X''", where ?'a = nat] by simp

lemma tolower_x_iff: "tolower c = code CHR ''x'' \<longleftrightarrow> c = CHR ''x'' \<or> c = CHR ''X''"
proof -
  have "tolower c = code CHR ''x'' \<longleftrightarrow> (of_char c :: nat) = 120 \<or> (of_char c :: nat) = 88"
    by (auto simp: tolower_def code_def)
  then show ?thesis by (simp add: char_is_x char_is_X)
qed

lemma isxdigit_valid: "isxdigit c \<longleftrightarrow> valid_digit 16 c"
  by (auto simp: isxdigit_def code_def valid_digit_def spec_digit_def Let_def)

lemma fixup_radix_spec:
  "parse_integer_fixup_radix s base =
     (let b1 = (if base = 0
                then (if cstr_at s 0 = CHR ''0''
                      then (if (cstr_at s 1 = CHR ''x'' \<or> cstr_at s 1 = CHR ''X'')
                               \<and> valid_digit 16 (cstr_at s 2)
                            then 16 else 8)
                      else 10)
                else base)
      in (if b1 = 16 \<and> cstr_at s 0 = CHR ''0''
             \<and> (cstr_at s 1 = CHR ''x'' \<or> cstr_at s 1 = CHR ''X'')
          then drop 2 s else s, b1))"
  by (auto simp: parse_integer_fixup_radix_def tolower_x_iff isxdigit_valid Let_def)


text \<open>
  C5. With base 0, a leading \<open>0\<close> followed by \<open>x\<close> or \<open>X\<close> and a valid hex digit selects
  base 16, any other leading \<open>0\<close> selects base 8, and anything else selects base 10; a
  non-zero base is kept. Whenever the resulting base is 16, also when the caller
  passed 16, a leading \<open>0x\<close>/\<open>0X\<close> is skipped, and nothing is skipped otherwise. With
  base 0, \<open>0x1A\<close> parses to 26, \<open>017\<close> to 15, \<open>10\<close> to 10 and \<open>0\<close> to 0; with base 16,
  \<open>0x1A\<close> parses to 26 as well.
\<close>

theorem radix_resolution:
  "snd (parse_integer_fixup_radix s 0) =
     (if cstr_at s 0 = CHR ''0''
      then (if (cstr_at s 1 = CHR ''x'' \<or> cstr_at s 1 = CHR ''X'')
               \<and> valid_digit 16 (cstr_at s 2)
            then 16 else 8)
      else 10)
   \<and> (base \<noteq> 0 \<longrightarrow> snd (parse_integer_fixup_radix s base) = base)
   \<and> fst (parse_integer_fixup_radix s base) =
     (if snd (parse_integer_fixup_radix s base) = 16 \<and> cstr_at s 0 = CHR ''0''
         \<and> (cstr_at s 1 = CHR ''x'' \<or> cstr_at s 1 = CHR ''X'')
      then drop 2 s else s)
   \<and> kstrtoull ''0x1A'' 0 r = (0, 26)
   \<and> kstrtoull ''017'' 0 r = (0, 15)
   \<and> kstrtoull ''10'' 0 r = (0, 10)
   \<and> kstrtoull ''0'' 0 r = (0, 0)
   \<and> kstrtoull ''0x1A'' 16 r = (0, 26)"
proof -
  have e1: "kstrtoull ''0x1A'' 0 r = (0, 26)"
    by (simp add: kstrtoull_short eval_radix eval_digits)
  have e2: "kstrtoull ''017'' 0 r = (0, 15)"
    by (simp add: kstrtoull_short eval_radix eval_digits)
  have e3: "kstrtoull ''10'' 0 r = (0, 10)"
    by (simp add: kstrtoull_short eval_radix eval_digits)
  have e4: "kstrtoull ''0'' 0 r = (0, 0)"
    by (simp add: kstrtoull_short eval_radix eval_digits)
  have e5: "kstrtoull ''0x1A'' 16 r = (0, 26)"
    by (simp add: kstrtoull_short eval_radix eval_digits)
  show ?thesis
    by (simp add: fixup_radix_spec Let_def e1 e2 e3 e4 e5)
qed

theorem radix_resolution_witness:
  "(16 :: u32) \<noteq> 0 \<and> parse_integer_fixup_radix ''0Xff'' 16 = (''ff'', 16)
   \<and> parse_integer_fixup_radix ''0Xff'' 0 = (''ff'', 16)
   \<and> parse_integer_fixup_radix ''0xg'' 0 = (''0xg'', 8)
   \<and> parse_integer_fixup_radix ''0x'' 16 = ('''', 16)"
  using radix_resolution [of "''0Xff''" 16 0] radix_resolution [of "''0Xff''" 0 0]
    radix_resolution [of "''0xg''" 0 0] radix_resolution [of "''0x''" 16 0]
  by (simp add: prod_eq_iff eval_digits)

section \<open>Malformed input\<close>

lemma kstrtoull_minus: "kstrtoull (CHR ''-'' # t) base r = (- EINVAL, r)"
proof -
  have "\<not> valid_digit 16 CHR ''-''" by (simp add: valid_digit_def spec_digit_def)
  then show ?thesis by (simp add: kstrtoull_def internal_kstrtoull_bad_first)
qed

lemma kstrtoull_bad_first:
  assumes "\<not> valid_digit 16 c" and "c \<noteq> CHR ''+''"
  shows "kstrtoull (c # t) base r = (- EINVAL, r)"
  using assms by (simp add: kstrtoull_def internal_kstrtoull_bad_first)

lemma kstrtoull_base_mismatch:
  assumes "base \<noteq> 0" and "\<not> valid_digit (unat base) c" and "c \<noteq> CHR ''+''"
  shows "kstrtoull (c # t) base r = (- EINVAL, r)"
proof -
  have c0: "base = 16 \<Longrightarrow> c \<noteq> CHR ''0''"
    using assms(2) by (auto simp: valid_digit_def spec_digit_def)
  have fx: "parse_integer_fixup_radix (c # t) base = (c # t, base)"
    using assms(1) c0 by (auto simp: parse_integer_fixup_radix_def Let_def)
  have "internal_kstrtoull (c # t) base r = (- EINVAL, r)"
    by (rule internal_kstrtoull_no_digits [OF fx]) (simp add: digit_run_def assms(2))
  then show ?thesis using assms(3) by (simp add: kstrtoull_def)
qed


lemma internal_kstrtoull_count:
  assumes "parse_integer_fixup_radix s base = (s1, b1)"
  shows "internal_kstrtoull s base r =
     (if (word_of_nat (length (digit_run (unat b1) s1)) :: u32) AND KSTRTOX_OVERFLOW \<noteq> 0
      then (- ERANGE, r)
      else if (word_of_nat (length (digit_run (unat b1) s1)) :: u32) = 0 then (- EINVAL, r)
      else if cstr_at (let s2 = drop (unat (word_of_nat (length (digit_run (unat b1) s1)) :: u32)) s1
                       in if cstr_at s2 0 = CHR 0x0A then drop 1 s2 else s2) 0 \<noteq> CHR 0x00
           then (- EINVAL, r)
      else (0, word_of_nat (digits_value (unat b1) (digit_run (unat b1) s1))))"
  using assms by (simp add: internal_kstrtoull_def parse_integer_run Let_def)

lemma zero_is_decimal_digit: "valid_digit (unat (10 :: u32)) CHR ''0''"
  by (simp add: valid_digit_def spec_digit_def)

lemma x_not_decimal_digit: "\<not> valid_digit (unat (10 :: u32)) CHR ''x''"
  by (simp add: valid_digit_def spec_digit_def)

lemma digit_run_replicate:
  "valid_digit b c \<Longrightarrow> digit_run b (replicate n c) = replicate n c"
  by (simp add: digit_run_def)

lemma digit_run_replicate_then:
  "valid_digit b c \<Longrightarrow> \<not> valid_digit b x \<Longrightarrow>
   digit_run b (replicate n c @ x # t) = replicate n c"
  by (induction n) (simp_all add: digit_run_def)

lemma cstr_at_replicate_0: "0 < n \<Longrightarrow> cstr_at (replicate n c @ t) 0 = c"
  by (cases n) (simp_all add: cstr_at_def)

lemma count_wraps_to_zero: "(word_of_nat (2 ^ 32) :: u32) = 0"
  by simp

lemma count_hits_overflow_bit: "(word_of_nat (2 ^ 31) :: u32) AND KSTRTOX_OVERFLOW \<noteq> 0"
  by (simp add: KSTRTOX_OVERFLOW_def)

lemma kstrtoull_many_zeros:
  "kstrtoull (replicate (2 ^ 32) CHR ''0'') 10 r = (- EINVAL, r)"
proof -
  let ?s = "replicate (2 ^ 32) CHR ''0''"
  have np: "cstr_at ?s 0 \<noteq> CHR ''+''"
    using cstr_at_replicate_0 [of "2 ^ 32" "CHR ''0''" "[]"] by simp
  have fx: "parse_integer_fixup_radix ?s 10 = (?s, 10)"
    by (rule fixup_radix_plain) simp_all
  have run: "digit_run (unat (10 :: u32)) ?s = ?s"
    by (rule digit_run_replicate) (rule zero_is_decimal_digit)
  have "internal_kstrtoull ?s 10 r = (- EINVAL, r)"
    unfolding internal_kstrtoull_count [OF fx] run length_replicate count_wraps_to_zero
    by simp
  then show ?thesis by (rule trans [OF kstrtoull_no_plus [OF np]])
qed

lemma kstrtoull_zeros_then_x:
  "kstrtoull (replicate (2 ^ 31) CHR ''0'' @ ''x'') 10 r = (- ERANGE, r)"
proof -
  let ?s = "replicate (2 ^ 31) CHR ''0'' @ ''x''"
  have np: "cstr_at ?s 0 \<noteq> CHR ''+''"
    using cstr_at_replicate_0 [of "2 ^ 31" "CHR ''0''" "''x''"] by simp
  have fx: "parse_integer_fixup_radix ?s 10 = (?s, 10)"
    by (rule fixup_radix_plain) simp_all
  have run: "digit_run (unat (10 :: u32)) ?s = replicate (2 ^ 31) CHR ''0''"
    by (rule digit_run_replicate_then) (rule zero_is_decimal_digit, rule x_not_decimal_digit)
  have "internal_kstrtoull ?s 10 r = (- ERANGE, r)"
    unfolding internal_kstrtoull_count [OF fx] run length_replicate
    using count_hits_overflow_bit by (simp only: if_True simp_thms)
  then show ?thesis by (rule trans [OF kstrtoull_no_plus [OF np]])
qed

lemma no_digits_or_trailing_zeros:
  assumes "0 < n"
  shows "\<not> no_digits_or_trailing (replicate n CHR ''0'') 10"
proof -
  let ?s = "replicate n CHR ''0''"
  have np: "cstr_at ?s 0 \<noteq> CHR ''+''"
    using cstr_at_replicate_0 [OF assms, of "CHR ''0''" "[]"] by simp
  have fx: "parse_integer_fixup_radix ?s 10 = (?s, 10)"
    by (rule fixup_radix_plain) simp_all
  have run: "digit_run (unat (10 :: u32)) ?s = ?s"
    by (rule digit_run_replicate) (rule zero_is_decimal_digit)
  have run10: "digit_run 10 ?s = ?s" using run by simp
  show ?thesis
    using assms by (simp add: no_digits_or_trailing_def np fx run10 after_digits_all)
qed

lemma no_digits_or_trailing_zeros_then_x:
  assumes "0 < n"
  shows "no_digits_or_trailing (replicate n CHR ''0'' @ ''x'') 10"
proof -
  let ?s = "replicate n CHR ''0'' @ ''x''"
  have np: "cstr_at ?s 0 \<noteq> CHR ''+''"
    using cstr_at_replicate_0 [OF assms, of "CHR ''0''" "''x''"] by simp
  have fx: "parse_integer_fixup_radix ?s 10 = (?s, 10)"
    by (rule fixup_radix_plain) simp_all
  have run: "digit_run (unat (10 :: u32)) ?s = replicate n CHR ''0''"
    by (rule digit_run_replicate_then) (rule zero_is_decimal_digit, rule x_not_decimal_digit)
  have run10: "digit_run 10 ?s = replicate n CHR ''0''" using run by simp
  show ?thesis
    by (simp add: no_digits_or_trailing_def np fx run10 after_digits_def)
qed


text \<open>
  C6, as stated, fails on very long inputs. \<open>_parse_integer\<close> counts the consumed
  characters in a 32-bit \<open>unsigned int\<close> whose bit 31 is also the overflow flag. On
  \<open>2 ^ 32\<close> zeros in base 10 the count wraps to 0 and \<open>kstrtoull\<close> returns \<open>-EINVAL\<close>,
  although every character is a consumed digit and nothing remains. On \<open>2 ^ 31\<close> zeros
  followed by \<open>x\<close> the count is the overflow bit itself and \<open>kstrtoull\<close> returns
  \<open>-ERANGE\<close>, not \<open>-EINVAL\<close>, although a character remains after the digits.
\<close>

theorem long_digit_run_counterexample:
  "kstrtoull (replicate (2 ^ 32) CHR ''0'') 10 7 = (- EINVAL, 7)
   \<and> \<not> no_digits_or_trailing (replicate (2 ^ 32) CHR ''0'') 10
   \<and> kstrtoull (replicate (2 ^ 31) CHR ''0'' @ ''x'') 10 7 = (- ERANGE, 7)
   \<and> - ERANGE \<noteq> - EINVAL
   \<and> no_digits_or_trailing (replicate (2 ^ 31) CHR ''0'' @ ''x'') 10"
proof (intro conjI)
  show "kstrtoull (replicate (2 ^ 32) CHR ''0'') 10 7 = (- EINVAL, 7)"
    by (rule kstrtoull_many_zeros)
  show "\<not> no_digits_or_trailing (replicate (2 ^ 32) CHR ''0'') 10"
    by (rule no_digits_or_trailing_zeros) simp
  show "kstrtoull (replicate (2 ^ 31) CHR ''0'' @ ''x'') 10 7 = (- ERANGE, 7)"
    by (rule kstrtoull_zeros_then_x)
  show "- ERANGE \<noteq> - EINVAL" by (simp add: EINVAL_def ERANGE_def)
  show "no_digits_or_trailing (replicate (2 ^ 31) CHR ''0'' @ ''x'') 10"
    by (rule no_digits_or_trailing_zeros_then_x) simp
qed

text \<open>
  C6, amended. For every input shorter than \<open>2 ^ 31\<close> characters, \<open>kstrtoull\<close>
  returns \<open>-EINVAL\<close> exactly when, after an optional leading \<open>+\<close> and the radix prefix,
  no digit is consumed, or a character other than the terminator remains after the
  digits and at most one newline. The empty string, a bare sign, a leading \<open>-\<close>, a
  first character that is no digit and a first character that is no digit of the base
  all fail with \<open>-EINVAL\<close>, whatever follows. \<open>123abc\<close> and \<open>123\n\n\<close> fail with
  \<open>-EINVAL\<close>, \<open>-1\<close> fails with \<open>-EINVAL\<close>, which is not \<open>-ERANGE\<close>, while \<open>+1\<close>
  yields 1 and \<open>123\n\<close> yields 123.
\<close>

theorem kstrtoull_invalid_iff:
  "(length s < 2 ^ 31 \<longrightarrow>
      (fst (kstrtoull s base r) = - EINVAL \<longleftrightarrow> no_digits_or_trailing s base))
   \<and> kstrtoull [] base r = (- EINVAL, r)
   \<and> kstrtoull ''+'' base r = (- EINVAL, r)
   \<and> kstrtoull ''-'' base r = (- EINVAL, r)
   \<and> kstrtoull (CHR ''-'' # t) base r = (- EINVAL, r)
   \<and> (\<not> valid_digit 16 c \<and> c \<noteq> CHR ''+'' \<longrightarrow> kstrtoull (c # t) base r = (- EINVAL, r))
   \<and> (base \<noteq> 0 \<and> \<not> valid_digit (unat base) c \<and> c \<noteq> CHR ''+'' \<longrightarrow>
        kstrtoull (c # t) base r = (- EINVAL, r))
   \<and> kstrtoull ''123abc'' 10 r = (- EINVAL, r)
   \<and> kstrtoull [CHR ''1'', CHR ''2'', CHR ''3'', CHR 0x0A, CHR 0x0A] 10 r = (- EINVAL, r)
   \<and> kstrtoull ''-1'' 10 r = (- EINVAL, r)
   \<and> - EINVAL \<noteq> - ERANGE
   \<and> kstrtoull ''+1'' 10 r = (0, 1)
   \<and> kstrtoull [CHR ''1'', CHR ''2'', CHR ''3'', CHR 0x0A] 10 r = (0, 123)"
proof -
  have main: "length s < 2 ^ 31 \<longrightarrow>
      (fst (kstrtoull s base r) = - EINVAL \<longleftrightarrow> no_digits_or_trailing s base)"
    by (auto simp: kstrtoull_short no_digits_or_trailing_def EINVAL_nonzero split: prod.splits)
  have e0: "kstrtoull [] base r = (- EINVAL, r)"
    by (simp add: kstrtoull_short parse_integer_fixup_radix_def Let_def digit_run_def
        split: prod.splits)
  have e1: "kstrtoull ''+'' base r = (- EINVAL, r)"
    by (simp add: kstrtoull_short parse_integer_fixup_radix_def Let_def digit_run_def
        split: prod.splits)
  have e2: "kstrtoull ''123abc'' 10 r = (- EINVAL, r)"
    by (simp add: kstrtoull_short eval_radix eval_digits)
  have e3: "kstrtoull [CHR ''1'', CHR ''2'', CHR ''3'', CHR 0x0A, CHR 0x0A] 10 r = (- EINVAL, r)"
    by (simp add: kstrtoull_short eval_radix eval_digits)
  have e4: "kstrtoull ''+1'' 10 r = (0, 1)"
    by (simp add: kstrtoull_short eval_radix eval_digits)
  have e5: "kstrtoull [CHR ''1'', CHR ''2'', CHR ''3'', CHR 0x0A] 10 r = (0, 123)"
    by (simp add: kstrtoull_short eval_radix eval_digits)
  have e6: "- EINVAL \<noteq> - ERANGE" by (simp add: EINVAL_def ERANGE_def)
  show ?thesis
    using main e0 e1 e2 e3 e4 e5 e6 kstrtoull_minus kstrtoull_bad_first
      kstrtoull_base_mismatch
    by simp
qed

theorem kstrtoull_invalid_iff_witness:
  "length ''12x'' < (2::nat) ^ 31 \<and> fst (kstrtoull ''12x'' 10 7) = - EINVAL
   \<and> length ''12'' < (2::nat) ^ 31 \<and> fst (kstrtoull ''12'' 8 7) \<noteq> - EINVAL
   \<and> \<not> valid_digit 16 CHR ''g'' \<and> kstrtoull ''g1'' 10 7 = (- EINVAL, 7)
   \<and> (8 :: u32) \<noteq> 0 \<and> \<not> valid_digit (unat (8 :: u32)) CHR ''9''
   \<and> kstrtoull ''91'' 8 7 = (- EINVAL, 7)"
  using kstrtoull_invalid_iff [of "''12x''" 10 7 "''1''" "CHR ''g''"]
    kstrtoull_invalid_iff [of "''12''" 8 7 "''1''" "CHR ''9''"]
  by (simp add: no_digits_or_trailing_def eval_radix eval_digits)


section \<open>Bases outside the documented range\<close>

text \<open>
  C10. The base is never validated. For a base outside \<open>{0, 2..16}\<close>, that is 1 or above
  16, radix resolution changes neither the string nor the base, and a non-empty string
  of digit characters whose values are all below the base (shorter than \<open>2 ^ 31\<close>
  characters) parses successfully to its positional value with that base as the
  multiplier, reduced to 64 bits. So \<open>0\<close> in base 1 gives 0 and \<open>10\<close> in base 17 gives 17.
\<close>

theorem unvalidated_base:
  "((base = 1 \<or> 16 < base) \<longrightarrow> parse_integer_fixup_radix s base = (s, base))
   \<and> ((base = 1 \<or> 16 < base) \<and> ds \<noteq> [] \<and> (\<forall>c\<in>set ds. valid_digit (unat base) c)
        \<and> length ds < 2 ^ 31 \<longrightarrow>
      kstrtoull ds base r = (0, word_of_nat (digits_value (unat base) ds)))
   \<and> kstrtoull ''0'' 1 r = (0, 0)
   \<and> kstrtoull ''10'' 17 r = (0, 17)"
proof -
  have "16 < base \<Longrightarrow> base \<noteq> 0 \<and> base \<noteq> 16"
    by (auto simp: word_less_nat_alt)
  then have a: "(base = 1 \<or> 16 < base) \<longrightarrow> parse_integer_fixup_radix s base = (s, base)"
    using fixup_radix_plain [of base s] by auto
  have e1: "kstrtoull ''0'' 1 r = (0, 0)"
    by (simp add: kstrtoull_short eval_radix eval_digits)
  have e2: "kstrtoull ''10'' 17 r = (0, 17)"
    by (simp add: kstrtoull_short eval_radix eval_digits)
  show ?thesis using a e1 e2 by (simp add: kstrtoull_digits)
qed

theorem unvalidated_base_witness:
  "(16 :: u32) < 36 \<and> parse_integer_fixup_radix ''0x1f'' 36 = (''0x1f'', 36)
   \<and> ''1f'' \<noteq> [] \<and> list_all (valid_digit (unat (36 :: u32))) ''1f''
   \<and> length ''1f'' < (2::nat) ^ 31
   \<and> kstrtoull ''1f'' 36 7 = (0, 51)"
  using unvalidated_base [of 36 "''0x1f''" "''1f''" 7]
  by (simp add: eval_digits)

section \<open>Signed readings of 64-bit words\<close>

lemma sint_u64:
  "sint (v :: u64) = (if unat v < 2 ^ 63 then int (unat v) else int (unat v) - 2 ^ 64)"
proof -
  have lt: "unat v < 2 ^ 64" using unsigned_less [of v, where ?'a = nat] by simp
  have b: "bit (uint v) 63 \<longleftrightarrow> \<not> unat v < 2 ^ 63"
  proof -
    have "bit (uint v) 63 \<longleftrightarrow> bit (unat v) 63"
      by (simp add: bit_unsigned_iff)
    also have "\<dots> \<longleftrightarrow> odd (unat v div 2 ^ 63)" by (simp add: bit_iff_odd)
    also have "\<dots> \<longleftrightarrow> \<not> unat v < 2 ^ 63"
    proof (cases "unat v < 2 ^ 63")
      case True then show ?thesis by simp
    next
      case False
      with lt have "unat v div 2 ^ 63 = 1" by simp
      with False show ?thesis by simp
    qed
    finally show ?thesis .
  qed
  have "sint v = signed_take_bit 63 (uint v)" by (simp add: sint_uint)
  also have "\<dots> = take_bit 64 (uint v) - 2 ^ 64 * of_bool (bit (uint v) 63)"
    by (simp add: signed_take_bit_eq_take_bit_minus)
  also have "take_bit 64 (uint v) = uint v"
    using uint_lt2p [of v] by (simp add: take_bit_int_eq_self)
  finally show ?thesis by (simp add: b)
qed

lemma sless_zero_u64: "(v :: u64) <s 0 \<longleftrightarrow> 2 ^ 63 \<le> unat v"
proof -
  have "unat v < 2 ^ 64" using unsigned_less [of v, where ?'a = nat] by simp
  moreover have "uint v < 2 ^ 64" using uint_lt2p [of v] by simp
  ultimately show ?thesis by (auto simp: word_sless_alt sint_u64)
qed

lemma unat_neg_u64: "unat (- v :: u64) = (if v = 0 then 0 else 2 ^ 64 - unat v)"
  using unat_sub_if_size [of 0 v] by (auto simp: word_size unat_eq_0)

lemma sint_neg_u64:
  "sint (- v :: u64) = (if 2 ^ 63 < unat v then 2 ^ 64 - int (unat v) else - int (unat v))"
proof -
  have "unat v < 2 ^ 64" using unsigned_less [of v, where ?'a = nat] by simp
  then show ?thesis
    by (auto simp: sint_u64 unat_neg_u64 unat_eq_0)
qed

lemma zero_sless_neg_u64: "0 <s - (v :: u64) \<longleftrightarrow> 2 ^ 63 < unat v"
proof -
  have "unat v < 2 ^ 64" using unsigned_less [of v, where ?'a = nat] by simp
  moreover have "uint v < 2 ^ 64" using uint_lt2p [of v] by simp
  ultimately show ?thesis by (auto simp: word_sless_alt sint_neg_u64)
qed

section \<open>The signed 64-bit parser\<close>

lemma kstrtoll_unsigned_branch:
  assumes "cstr_at s 0 \<noteq> CHR ''-''"
  shows "kstrtoll s base r =
     (if fst (kstrtoull s base t) \<noteq> 0 then (fst (kstrtoull s base t), r)
      else if 2 ^ 63 \<le> unat (snd (kstrtoull s base t)) then (- ERANGE, r)
      else (0, snd (kstrtoull s base t)))"
proof -
  obtain rv tmp where w: "kstrtoull s base 0 = (rv, tmp)" by (cases "kstrtoull s base 0")
  have neg: "rv < 0 \<longleftrightarrow> rv \<noteq> 0"
    using kstrtoull_rc [of s base 0] by (simp add: w rc_neg_iff)
  have t: "kstrtoull s base t = (if rv = 0 then (0, tmp) else (rv, t))"
    using kstrtoull_slot [of s base t 0] by (simp add: w)
  show ?thesis using assms by (auto simp: kstrtoll_def w neg t sless_zero_u64)
qed

lemma negated_branch_shape:
  "(case internal_kstrtoull u base 0 of (rv, tmp) \<Rightarrow>
      if rv < 0 then (rv, r)
      else if 0 <s - tmp then (- ERANGE, r)
      else (0, - tmp))
   = (if fst (internal_kstrtoull u base t) \<noteq> 0
      then (fst (internal_kstrtoull u base t), r)
      else if 2 ^ 63 < unat (snd (internal_kstrtoull u base t)) then (- ERANGE, r)
      else (0, - snd (internal_kstrtoull u base t)))"
proof -
  obtain rv tmp where w: "internal_kstrtoull u base 0 = (rv, tmp)"
    by (cases "internal_kstrtoull u base 0")
  have neg: "rv < 0 \<longleftrightarrow> rv \<noteq> 0"
    using internal_kstrtoull_rc [of u base 0] by (simp add: w rc_neg_iff)
  have t: "internal_kstrtoull u base t = (if rv = 0 then (0, tmp) else (rv, t))"
    using internal_kstrtoull_slot [of u base t 0] by (simp add: w)
  show ?thesis by (auto simp: w neg t zero_sless_neg_u64)
qed

lemma kstrtoll_negated_branch:
  assumes "cstr_at s 0 = CHR ''-''"
  shows "kstrtoll s base r =
     (if fst (internal_kstrtoull (drop 1 s) base t) \<noteq> 0
      then (fst (internal_kstrtoull (drop 1 s) base t), r)
      else if 2 ^ 63 < unat (snd (internal_kstrtoull (drop 1 s) base t)) then (- ERANGE, r)
      else (0, - snd (internal_kstrtoull (drop 1 s) base t)))"
proof -
  have "kstrtoll s base r =
     (case internal_kstrtoull (drop 1 s) base 0 of (rv, tmp) \<Rightarrow>
        if rv < 0 then (rv, r)
        else if 0 <s - tmp then (- ERANGE, r)
        else (0, - tmp))"
    by (simp only: kstrtoll_def assms if_True simp_thms)
  also have "\<dots> = (if fst (internal_kstrtoull (drop 1 s) base t) \<noteq> 0
      then (fst (internal_kstrtoull (drop 1 s) base t), r)
      else if 2 ^ 63 < unat (snd (internal_kstrtoull (drop 1 s) base t)) then (- ERANGE, r)
      else (0, - snd (internal_kstrtoull (drop 1 s) base t)))"
    by (rule negated_branch_shape)
  finally show ?thesis .
qed

lemma internal_kstrtoull_short_eval:
  assumes "length s < 2 ^ 31"
  shows "internal_kstrtoull s base res =
     (case parse_integer_fixup_radix s base of
        (s1, b1) \<Rightarrow>
          if digit_run (unat b1) s1 = [] then (- EINVAL, res)
          else if cstr_at (after_digits (digit_run (unat b1) s1) s1) 0 \<noteq> CHR 0x00
               then (- EINVAL, res)
          else (0, word_of_nat (digits_value (unat b1) (digit_run (unat b1) s1))))"
proof -
  obtain s1 b1 where fx: "parse_integer_fixup_radix s base = (s1, b1)"
    by (cases "parse_integer_fixup_radix s base")
  from internal_kstrtoull_short [OF assms fx, of res] show ?thesis by (simp add: fx)
qed


lemma kstrtoull_plus_digits:
  assumes ne: "ds \<noteq> []" and ok: "\<forall>c\<in>set ds. valid_digit (unat base) c"
    and len: "length ds < 2 ^ 31"
  shows "kstrtoull (CHR ''+'' # ds) base r = (0, word_of_nat (digits_value (unat base) ds))"
proof -
  have "valid_digit (unat base) (hd ds)" using ne ok by simp
  then have "hd ds \<noteq> CHR ''+''" using valid_digit_not_sign by blast
  then have np: "cstr_at ds 0 \<noteq> CHR ''+''" using ne by (cases ds) simp_all
  have "kstrtoull (CHR ''+'' # ds) base r = internal_kstrtoull ds base r"
    by (simp add: kstrtoull_def)
  also have "\<dots> = kstrtoull ds base r" using np by (simp add: kstrtoull_def)
  finally show ?thesis by (simp add: kstrtoull_digits [OF ne ok len])
qed

lemma unat_value_u64: "v < 2 ^ 64 \<Longrightarrow> unat (word_of_nat v :: u64) = v"
  by (simp add: unat_of_nat)


text \<open>
  C3. \<open>kstrtoll\<close> handles the asymmetric signed range exactly. The text
  \<open>-9223372036854775808\<close> parses to \<open>- 2 ^ 63\<close>; \<open>-9223372036854775809\<close> fails with
  \<open>-ERANGE\<close>. Every non-empty string of digits valid for the base (shorter than
  \<open>2 ^ 31\<close> characters, with or without a leading \<open>+\<close>) whose exact value fits in 64
  bits but exceeds \<open>2 ^ 63 - 1\<close> fails with \<open>-ERANGE\<close> and leaves the slot alone;
  so does every input without a leading \<open>-\<close> that \<open>kstrtoull\<close> parses to a value
  above \<open>2 ^ 63 - 1\<close>, whatever its prefix, base or trailing newline.
  \<open>9223372036854775807\<close> still parses, \<open>9223372036854775808\<close> and
  \<open>18446744073709551615\<close> do not.
\<close>

theorem kstrtoll_boundaries:
  "kstrtoll ''-9223372036854775808'' 10 r = (0, - 9223372036854775808)
   \<and> sint (snd (kstrtoll ''-9223372036854775808'' 10 r)) = - (2 ^ 63)
   \<and> kstrtoll ''-9223372036854775809'' 10 r = (- ERANGE, r)
   \<and> (ds \<noteq> [] \<and> (\<forall>c\<in>set ds. valid_digit (unat base) c) \<and> length ds < 2 ^ 31
        \<and> 2 ^ 63 \<le> digits_value (unat base) ds \<and> digits_value (unat base) ds < 2 ^ 64 \<longrightarrow>
      kstrtoll ds base r = (- ERANGE, r) \<and> kstrtoll (CHR ''+'' # ds) base r = (- ERANGE, r))
   \<and> (cstr_at s 0 \<noteq> CHR ''-'' \<and> kstrtoull s base t = (0, v) \<and> 2 ^ 63 \<le> unat v \<longrightarrow>
      kstrtoll s base r = (- ERANGE, r))
   \<and> kstrtoll ''9223372036854775807'' 10 r = (0, 9223372036854775807)
   \<and> kstrtoll ''9223372036854775808'' 10 r = (- ERANGE, r)
   \<and> kstrtoll ''18446744073709551615'' 10 r = (- ERANGE, r)"
proof -
  have m1: "kstrtoll ''-9223372036854775808'' 10 r = (0, - 9223372036854775808)"
    by (simp add: kstrtoll_negated_branch [where t = 0] internal_kstrtoull_short_eval
        eval_radix eval_digits EINVAL_nonzero)
  have m2: "kstrtoll ''-9223372036854775809'' 10 r = (- ERANGE, r)"
    by (simp add: kstrtoll_negated_branch [where t = 0] internal_kstrtoull_short_eval
        eval_radix eval_digits EINVAL_nonzero)
  have m3: "kstrtoll ''9223372036854775807'' 10 r = (0, 9223372036854775807)"
    by (simp add: kstrtoll_unsigned_branch [where t = 0] kstrtoull_short
        eval_radix eval_digits EINVAL_nonzero)
  have m4: "kstrtoll ''9223372036854775808'' 10 r = (- ERANGE, r)"
    by (simp add: kstrtoll_unsigned_branch [where t = 0] kstrtoull_short
        eval_radix eval_digits EINVAL_nonzero)
  have m5: "kstrtoll ''18446744073709551615'' 10 r = (- ERANGE, r)"
    by (simp add: kstrtoll_unsigned_branch [where t = 0] kstrtoull_short
        eval_radix eval_digits EINVAL_nonzero)
  have m6: "sint (snd (kstrtoll ''-9223372036854775808'' 10 r)) = - (2 ^ 63)"
    by (simp add: m1)
  have gen: "kstrtoll ds base r = (- ERANGE, r) \<and> kstrtoll (CHR ''+'' # ds) base r = (- ERANGE, r)"
    if ne: "ds \<noteq> []" and ok: "\<forall>c\<in>set ds. valid_digit (unat base) c"
      and len: "length ds < 2 ^ 31" and lo: "2 ^ 63 \<le> digits_value (unat base) ds"
      and hi: "digits_value (unat base) ds < 2 ^ 64"
  proof -
    have "valid_digit (unat base) (hd ds)" using ne ok by simp
    then have "hd ds \<noteq> CHR ''-''" using valid_digit_not_sign by blast
    then have nm: "cstr_at ds 0 \<noteq> CHR ''-''" using ne by (cases ds) simp_all
    have a: "kstrtoll ds base r = (- ERANGE, r)"
      using lo by (simp add: kstrtoll_unsigned_branch [OF nm, where t = 0]
          kstrtoull_digits [OF ne ok len] unat_value_u64 [OF hi])
    have "cstr_at (CHR ''+'' # ds) 0 \<noteq> CHR ''-''" by simp
    then have b: "kstrtoll (CHR ''+'' # ds) base r = (- ERANGE, r)"
      using lo by (simp add: kstrtoll_unsigned_branch [where t = 0]
          kstrtoull_plus_digits [OF ne ok len] unat_value_u64 [OF hi])
    show ?thesis using a b by simp
  qed
  have res: "kstrtoll s base r = (- ERANGE, r)"
    if "cstr_at s 0 \<noteq> CHR ''-''" "kstrtoull s base t = (0, v)" "2 ^ 63 \<le> unat v"
    using that by (simp add: kstrtoll_unsigned_branch [where t = t])
  show ?thesis using m1 m2 m3 m4 m5 m6 gen res by blast
qed

theorem kstrtoll_boundaries_witness:
  "''ffffffffffffffff'' \<noteq> [] \<and> list_all (valid_digit (unat (16 :: u32))) ''ffffffffffffffff''
   \<and> length ''ffffffffffffffff'' < (2::nat) ^ 31
   \<and> 2 ^ 63 \<le> digits_value (unat (16 :: u32)) ''ffffffffffffffff''
   \<and> digits_value (unat (16 :: u32)) ''ffffffffffffffff'' < 2 ^ 64
   \<and> kstrtoll ''ffffffffffffffff'' 16 7 = (- ERANGE, 7)
   \<and> kstrtoll ''+ffffffffffffffff'' 16 7 = (- ERANGE, 7)
   \<and> cstr_at (''0x8000000000000000'' @ [CHR 0x0A]) 0 \<noteq> CHR ''-''
   \<and> kstrtoull (''0x8000000000000000'' @ [CHR 0x0A]) 0 0 = (0, 9223372036854775808)
   \<and> 2 ^ 63 \<le> unat (9223372036854775808 :: u64)
   \<and> kstrtoll (''0x8000000000000000'' @ [CHR 0x0A]) 0 7 = (- ERANGE, 7)"
proof -
  have a: "kstrtoull (''0x8000000000000000'' @ [CHR 0x0A]) 0 0 = (0, 9223372036854775808)"
    by (simp add: kstrtoull_short eval_radix eval_digits)
  show ?thesis
    using a kstrtoll_boundaries [where r = 7 and ds = "''ffffffffffffffff''" and base = 16
        and s = "[]" and t = 0 and v = 0]
      kstrtoll_boundaries [where r = 7 and ds = "[]" and base = 0
        and s = "''0x8000000000000000'' @ [CHR 0x0A]" and t = 0 and v = 9223372036854775808]
    by (simp add: eval_digits)
qed

section \<open>A minus sign followed by a plus sign\<close>

lemma plus_not_digit: "\<not> valid_digit 16 CHR ''+''"
  by (simp add: valid_digit_def spec_digit_def)


text \<open>
  C4, as stated, fails: the public entry \<open>kstrtoull\<close> accepts \<open>+5\<close>, and \<open>-5\<close> parses to
  \<open>-5\<close>, but \<open>kstrtoll\<close> rejects \<open>-+5\<close> with \<open>-EINVAL\<close> and leaves the slot alone,
  because after a minus sign it calls the static \<open>_kstrtoull\<close>, which strips no sign.
\<close>

theorem minus_plus_counterexample:
  "kstrtoull ''+5'' 10 0 = (0, 5) \<and> kstrtoll ''-5'' 10 7 = (0, - 5)
   \<and> kstrtoll ''-+5'' 10 7 = (- EINVAL, 7) \<and> fst (kstrtoll ''-+5'' 10 7) \<noteq> 0"
proof -
  have a: "kstrtoull ''+5'' 10 0 = (0, 5)"
    by (simp add: kstrtoull_short eval_radix eval_digits)
  have b: "kstrtoll ''-+5'' 10 7 = (- EINVAL, 7)"
    by (simp add: kstrtoll_negated_branch [where t = 0] internal_kstrtoull_short_eval
        eval_radix eval_digits EINVAL_nonzero)
  have c: "kstrtoll ''-5'' 10 7 = (0, - 5)"
    by (simp add: kstrtoll_negated_branch [where t = 0] internal_kstrtoull_short_eval
        eval_radix eval_digits EINVAL_nonzero)
  show ?thesis using a b c by (simp add: EINVAL_nonzero)
qed


text \<open>
  C4, amended. For every input whose first character is \<open>-\<close>, \<open>kstrtoll\<close> parses the
  remainder after the sign with the static \<open>_kstrtoull\<close>, which strips no leading \<open>+\<close>
  and rejects every string that starts with one (the public entry \<open>kstrtoull\<close> strips
  one leading \<open>+\<close> before delegating to it), and negates on success: an error of
  \<open>_kstrtoull\<close> on the remainder is returned as it is, with the slot left alone, and
  whenever \<open>kstrtoll\<close> succeeds, \<open>_kstrtoull\<close> has succeeded on the remainder and the
  slot holds the negation of the value it stored. In particular every input starting
  with \<open>-+\<close> fails with \<open>-EINVAL\<close>, whatever the base. In addition, when \<open>_kstrtoull\<close>
  succeeds on the remainder with a stored value of at most \<open>2 ^ 63\<close>, \<open>kstrtoll\<close>
  succeeds with its negation.
\<close>

theorem kstrtoll_negative_branch:
  "(cstr_at s 0 = CHR ''-'' \<and> fst (internal_kstrtoull (drop 1 s) base t) \<noteq> 0 \<longrightarrow>
      kstrtoll s base r = (fst (internal_kstrtoull (drop 1 s) base t), r))
   \<and> (cstr_at s 0 = CHR ''-'' \<and> fst (kstrtoll s base r) = 0 \<longrightarrow>
      fst (internal_kstrtoull (drop 1 s) base t) = 0
      \<and> snd (kstrtoll s base r) = - snd (internal_kstrtoull (drop 1 s) base t))
   \<and> (cstr_at s 0 = CHR ''-'' \<and> internal_kstrtoull (drop 1 s) base t = (0, v)
        \<and> unat v \<le> 2 ^ 63 \<longrightarrow>
      kstrtoll s base r = (0, - v) \<and> sint (- v) = - int (unat v))
   \<and> internal_kstrtoull (CHR ''+'' # ds) base t = (- EINVAL, t)
   \<and> kstrtoull (CHR ''+'' # ds) base t = internal_kstrtoull ds base t
   \<and> kstrtoll (CHR ''-'' # CHR ''+'' # ds) base r = (- EINVAL, r)"
proof -
  have p: "internal_kstrtoull (CHR ''+'' # ds) base t = (- EINVAL, t)" for t
    using plus_not_digit by (rule internal_kstrtoull_bad_first)
  have q: "kstrtoll (CHR ''-'' # CHR ''+'' # ds) base r = (- EINVAL, r)"
    by (simp add: kstrtoll_negated_branch [where t = 0] p EINVAL_nonzero)
  have e: "kstrtoull (CHR ''+'' # ds) base t = internal_kstrtoull ds base t"
    by (simp add: kstrtoull_def)
  have a: "kstrtoll s base r = (fst (internal_kstrtoull (drop 1 s) base t), r)"
    if "cstr_at s 0 = CHR ''-''" "fst (internal_kstrtoull (drop 1 s) base t) \<noteq> 0"
    using that by (simp add: kstrtoll_negated_branch [where t = t])
  have n: "fst (internal_kstrtoull (drop 1 s) base t) = 0
      \<and> snd (kstrtoll s base r) = - snd (internal_kstrtoull (drop 1 s) base t)"
    if m: "cstr_at s 0 = CHR ''-''" and ok: "fst (kstrtoll s base r) = 0"
    using ok unfolding kstrtoll_negated_branch [OF m, where t = t]
    by (auto simp: ERANGE_nonzero split: if_splits)
  have b: "kstrtoll s base r = (0, - v) \<and> sint (- v) = - int (unat v)"
    if "cstr_at s 0 = CHR ''-''" "internal_kstrtoull (drop 1 s) base t = (0, v)"
      "unat v \<le> 2 ^ 63"
    using that by (simp add: kstrtoll_negated_branch [where t = t] sint_neg_u64)
  show ?thesis using p q e a n b by blast
qed

theorem kstrtoll_negative_branch_witness:
  "cstr_at ''-x'' 0 = CHR ''-'' \<and> fst (internal_kstrtoull (drop 1 ''-x'') 10 0) \<noteq> 0
   \<and> kstrtoll ''-x'' 10 7 = (- EINVAL, 7)
   \<and> cstr_at ''-12'' 0 = CHR ''-'' \<and> internal_kstrtoull (drop 1 ''-12'') 10 0 = (0, 12)
   \<and> unat (12 :: u64) \<le> 2 ^ 63
   \<and> kstrtoll ''-12'' 10 7 = (0, - 12) \<and> sint (- 12 :: u64) = - 12
   \<and> fst (kstrtoll ''-12'' 10 7) = 0
   \<and> snd (kstrtoll ''-12'' 10 7) = - snd (internal_kstrtoull (drop 1 ''-12'') 10 0)"
proof -
  have a: "internal_kstrtoull ''x'' 10 0 = (- EINVAL, 0)"
    by (simp add: internal_kstrtoull_short_eval eval_radix eval_digits)
  have b: "internal_kstrtoull ''12'' 10 0 = (0, 12)"
    by (simp add: internal_kstrtoull_short_eval eval_radix eval_digits)
  show ?thesis
    using kstrtoll_negative_branch [where s = "''-x''" and base = 10 and t = 0 and r = 7
        and v = 0 and ds = "[]"]
      kstrtoll_negative_branch [where s = "''-12''" and base = 10 and t = 0 and r = 7
        and v = 12 and ds = "[]"]
    by (simp add: a b EINVAL_nonzero)
qed

section \<open>The width-narrowing wrappers\<close>

lemma lossless_narrowingI:
  assumes "out = (if fst wide \<noteq> 0 then (fst wide, slot)
                  else if widen (narrow (snd wide)) \<noteq> snd wide then (- ERANGE, slot)
                  else (0, narrow (snd wide)))"
  shows "lossless_narrowing wide narrow widen slot out"
  using assms by (simp add: lossless_narrowing_def ERANGE_nonzero)


text \<open>
  C7. Each of \<open>kstrtouint\<close>, \<open>kstrtoint\<close>, \<open>kstrtou16\<close>, \<open>kstrtos16\<close>, \<open>kstrtou8\<close>,
  \<open>kstrtos8\<close>, \<open>_kstrtoul\<close> and \<open>_kstrtol\<close> (for any width of \<open>long\<close>) succeeds exactly
  when the 64-bit parse succeeds and its result survives narrowing to the target and
  widening back (zero-extension for the unsigned targets, sign-extension for the
  signed ones); on success the slot holds the narrowed value, and on a failed round
  trip the wrapper returns \<open>-ERANGE\<close>.
\<close>

theorem narrowing_wrappers:
  "lossless_narrowing (kstrtoull s base t) ucast ucast r32 (kstrtouint s base r32)
   \<and> lossless_narrowing (kstrtoll s base t) scast scast r32 (kstrtoint s base r32)
   \<and> lossless_narrowing (kstrtoull s base t) ucast ucast r16 (kstrtou16 s base r16)
   \<and> lossless_narrowing (kstrtoll s base t) scast scast r16 (kstrtos16 s base r16)
   \<and> lossless_narrowing (kstrtoull s base t) ucast ucast r8 (kstrtou8 s base r8)
   \<and> lossless_narrowing (kstrtoll s base t) scast scast r8 (kstrtos8 s base r8)
   \<and> lossless_narrowing (kstrtoull s base t) ucast ucast rl
        (internal_kstrtoul s base (rl :: 'l::len word))
   \<and> lossless_narrowing (kstrtoll s base t) scast scast rl
        (internal_kstrtol s base (rl :: 'l word))"
proof (intro conjI)
  show "lossless_narrowing (kstrtoull s base t) ucast ucast r32 (kstrtouint s base r32)"
    unfolding kstrtouint_def by (rule lossless_narrowingI) (rule unsigned_wrapper_shape)
  show "lossless_narrowing (kstrtoll s base t) scast scast r32 (kstrtoint s base r32)"
    unfolding kstrtoint_def by (rule lossless_narrowingI) (rule signed_wrapper_shape)
  show "lossless_narrowing (kstrtoull s base t) ucast ucast r16 (kstrtou16 s base r16)"
    unfolding kstrtou16_def by (rule lossless_narrowingI) (rule unsigned_wrapper_shape)
  show "lossless_narrowing (kstrtoll s base t) scast scast r16 (kstrtos16 s base r16)"
    unfolding kstrtos16_def by (rule lossless_narrowingI) (rule signed_wrapper_shape)
  show "lossless_narrowing (kstrtoull s base t) ucast ucast r8 (kstrtou8 s base r8)"
    unfolding kstrtou8_def by (rule lossless_narrowingI) (rule unsigned_wrapper_shape)
  show "lossless_narrowing (kstrtoll s base t) scast scast r8 (kstrtos8 s base r8)"
    unfolding kstrtos8_def by (rule lossless_narrowingI) (rule signed_wrapper_shape)
  show "lossless_narrowing (kstrtoull s base t) ucast ucast rl (internal_kstrtoul s base rl)"
    unfolding internal_kstrtoul_def by (rule lossless_narrowingI) (rule unsigned_wrapper_shape)
  show "lossless_narrowing (kstrtoll s base t) scast scast rl (internal_kstrtol s base rl)"
    unfolding internal_kstrtol_def by (rule lossless_narrowingI) (rule signed_wrapper_shape)
qed

theorem narrowing_wrappers_witness:
  "kstrtoull ''300'' 10 0 = (0, 300) \<and> kstrtoll ''-129'' 10 0 = (0, - 129)
   \<and> kstrtoull ''x'' 10 0 = (- EINVAL, 0) \<and> kstrtoll ''x'' 10 0 = (- EINVAL, 0)
   \<and> kstrtouint ''300'' 10 7 = (0, 300) \<and> kstrtou16 ''300'' 10 7 = (0, 300)
   \<and> kstrtou8 ''300'' 10 7 = (- ERANGE, 7)
   \<and> internal_kstrtoul ''300'' 10 (7 :: 64 word) = (0, 300)
   \<and> kstrtoint ''-129'' 10 7 = (0, - 129) \<and> kstrtos16 ''-129'' 10 7 = (0, - 129)
   \<and> kstrtos8 ''-129'' 10 7 = (- ERANGE, 7)
   \<and> internal_kstrtol ''-129'' 10 (7 :: 64 word) = (0, - 129)
   \<and> kstrtou8 ''x'' 10 7 = (- EINVAL, 7) \<and> kstrtos8 ''x'' 10 7 = (- EINVAL, 7)"
proof -
  have a: "kstrtoull ''300'' 10 0 = (0, 300)"
    by (simp add: kstrtoull_short eval_radix eval_digits)
  have b: "kstrtoll ''-129'' 10 0 = (0, - 129)"
    by (simp add: kstrtoll_negated_branch [where t = 0] internal_kstrtoull_short_eval
        eval_radix eval_digits EINVAL_nonzero)
  have c: "kstrtoull ''x'' 10 0 = (- EINVAL, 0)"
    by (simp add: kstrtoull_short eval_radix eval_digits)
  have d: "kstrtoll ''x'' 10 0 = (- EINVAL, 0)"
    by (simp add: kstrtoll_unsigned_branch [where t = 0] c EINVAL_nonzero)
  show ?thesis
    using narrowing_wrappers [of "''300''" 10 0 7 7 7 "7 :: 64 word"]
      narrowing_wrappers [of "''-129''" 10 0 7 7 7 "7 :: 64 word"]
      narrowing_wrappers [of "''x''" 10 0 7 7 7 "7 :: 64 word"]
    by (simp add: lossless_narrowing_def a b c d prod_eq_iff EINVAL_nonzero ERANGE_nonzero)
qed

section \<open>The result slot on failure\<close>

lemma slot_kept_unsigned:
  fixes out :: "int \<times> 'n"
  assumes "out = (case kstrtoull s base 0 of (rv, tmp) \<Rightarrow>
              if rv < 0 then (rv, r)
              else if tmp \<noteq> widen (narrow tmp) then (- ERANGE, r)
              else (0, narrow tmp))"
  shows "fst out \<noteq> 0 \<longrightarrow> snd out = r"
  unfolding assms unsigned_wrapper_shape [where t = 0] by simp

lemma slot_kept_signed:
  fixes out :: "int \<times> 'n"
  assumes "out = (case kstrtoll s base 0 of (rv, tmp) \<Rightarrow>
              if rv < 0 then (rv, r)
              else if tmp \<noteq> widen (narrow tmp) then (- ERANGE, r)
              else (0, narrow tmp))"
  shows "fst out \<noteq> 0 \<longrightarrow> snd out = r"
  unfolding assms signed_wrapper_shape [where t = 0] by simp


text \<open>
  C8. For every parser of the family (\<open>_kstrtoull\<close>, \<open>kstrtoull\<close>, \<open>kstrtoll\<close>, the eight
  width-narrowing wrappers and \<open>kstrtobool\<close>) and every input: when the call returns
  anything but 0, the result slot holds the value it held before the call.
\<close>

theorem error_leaves_slot:
  "(fst (internal_kstrtoull s base r64) \<noteq> 0 \<longrightarrow> snd (internal_kstrtoull s base r64) = r64)
   \<and> (fst (kstrtoull s base r64) \<noteq> 0 \<longrightarrow> snd (kstrtoull s base r64) = r64)
   \<and> (fst (kstrtoll s base r64) \<noteq> 0 \<longrightarrow> snd (kstrtoll s base r64) = r64)
   \<and> (fst (internal_kstrtoul s base rl) \<noteq> 0 \<longrightarrow>
        snd (internal_kstrtoul s base rl) = (rl :: 'l::len word))
   \<and> (fst (internal_kstrtol s base rl) \<noteq> 0 \<longrightarrow> snd (internal_kstrtol s base rl) = rl)
   \<and> (fst (kstrtouint s base r32) \<noteq> 0 \<longrightarrow> snd (kstrtouint s base r32) = r32)
   \<and> (fst (kstrtoint s base r32) \<noteq> 0 \<longrightarrow> snd (kstrtoint s base r32) = r32)
   \<and> (fst (kstrtou16 s base r16) \<noteq> 0 \<longrightarrow> snd (kstrtou16 s base r16) = r16)
   \<and> (fst (kstrtos16 s base r16) \<noteq> 0 \<longrightarrow> snd (kstrtos16 s base r16) = r16)
   \<and> (fst (kstrtou8 s base r8) \<noteq> 0 \<longrightarrow> snd (kstrtou8 s base r8) = r8)
   \<and> (fst (kstrtos8 s base r8) \<noteq> 0 \<longrightarrow> snd (kstrtos8 s base r8) = r8)
   \<and> (fst (kstrtobool sp rb) \<noteq> 0 \<longrightarrow> snd (kstrtobool sp rb) = rb)"
proof (intro conjI)
  show "fst (internal_kstrtoull s base r64) \<noteq> 0 \<longrightarrow> snd (internal_kstrtoull s base r64) = r64"
    using internal_kstrtoull_slot [of s base r64 r64] by (metis snd_conv)
  show "fst (kstrtoull s base r64) \<noteq> 0 \<longrightarrow> snd (kstrtoull s base r64) = r64"
    using kstrtoull_slot [of s base r64 r64] by (metis snd_conv)
  show "fst (kstrtoll s base r64) \<noteq> 0 \<longrightarrow> snd (kstrtoll s base r64) = r64"
    using kstrtoll_slot [of s base r64 r64] by (metis snd_conv)
  show "fst (internal_kstrtoul s base rl) \<noteq> 0 \<longrightarrow> snd (internal_kstrtoul s base rl) = rl"
    by (rule slot_kept_unsigned) (rule internal_kstrtoul_def)
  show "fst (internal_kstrtol s base rl) \<noteq> 0 \<longrightarrow> snd (internal_kstrtol s base rl) = rl"
    by (rule slot_kept_signed) (rule internal_kstrtol_def)
  show "fst (kstrtouint s base r32) \<noteq> 0 \<longrightarrow> snd (kstrtouint s base r32) = r32"
    by (rule slot_kept_unsigned) (rule kstrtouint_def)
  show "fst (kstrtoint s base r32) \<noteq> 0 \<longrightarrow> snd (kstrtoint s base r32) = r32"
    by (rule slot_kept_signed) (rule kstrtoint_def)
  show "fst (kstrtou16 s base r16) \<noteq> 0 \<longrightarrow> snd (kstrtou16 s base r16) = r16"
    by (rule slot_kept_unsigned) (rule kstrtou16_def)
  show "fst (kstrtos16 s base r16) \<noteq> 0 \<longrightarrow> snd (kstrtos16 s base r16) = r16"
    by (rule slot_kept_signed) (rule kstrtos16_def)
  show "fst (kstrtou8 s base r8) \<noteq> 0 \<longrightarrow> snd (kstrtou8 s base r8) = r8"
    by (rule slot_kept_unsigned) (rule kstrtou8_def)
  show "fst (kstrtos8 s base r8) \<noteq> 0 \<longrightarrow> snd (kstrtos8 s base r8) = r8"
    by (rule slot_kept_signed) (rule kstrtos8_def)
  show "fst (kstrtobool sp rb) \<noteq> 0 \<longrightarrow> snd (kstrtobool sp rb) = rb"
    by (simp add: kstrtobool_def split: option.splits)
qed

theorem error_leaves_slot_witness:
  "fst (internal_kstrtoull ''12x'' 10 7) \<noteq> 0 \<and> snd (internal_kstrtoull ''12x'' 10 7) = 7
   \<and> fst (kstrtoull ''12x'' 10 7) \<noteq> 0 \<and> snd (kstrtoull ''12x'' 10 7) = 7
   \<and> fst (kstrtoll ''12x'' 10 7) \<noteq> 0 \<and> snd (kstrtoll ''12x'' 10 7) = 7
   \<and> fst (internal_kstrtoul ''12x'' 10 (7 :: 64 word)) \<noteq> 0
   \<and> snd (internal_kstrtoul ''12x'' 10 (7 :: 64 word)) = 7
   \<and> fst (internal_kstrtol ''12x'' 10 (7 :: 64 word)) \<noteq> 0
   \<and> snd (internal_kstrtol ''12x'' 10 (7 :: 64 word)) = 7
   \<and> fst (kstrtouint ''12x'' 10 7) \<noteq> 0 \<and> snd (kstrtouint ''12x'' 10 7) = 7
   \<and> fst (kstrtoint ''12x'' 10 7) \<noteq> 0 \<and> snd (kstrtoint ''12x'' 10 7) = 7
   \<and> fst (kstrtou16 ''12x'' 10 7) \<noteq> 0 \<and> snd (kstrtou16 ''12x'' 10 7) = 7
   \<and> fst (kstrtos16 ''12x'' 10 7) \<noteq> 0 \<and> snd (kstrtos16 ''12x'' 10 7) = 7
   \<and> fst (kstrtou8 ''12x'' 10 7) \<noteq> 0 \<and> snd (kstrtou8 ''12x'' 10 7) = 7
   \<and> fst (kstrtos8 ''12x'' 10 7) \<noteq> 0 \<and> snd (kstrtos8 ''12x'' 10 7) = 7
   \<and> fst (kstrtobool (Some ''maybe'') True) \<noteq> 0
   \<and> snd (kstrtobool (Some ''maybe'') True) = True"
proof -
  have a: "internal_kstrtoull ''12x'' 10 t = (- EINVAL, t)" for t
    by (simp add: internal_kstrtoull_short_eval eval_radix eval_digits)
  have b: "kstrtoull ''12x'' 10 t = (- EINVAL, t)" for t
    by (simp add: kstrtoull_def a)
  have c: "kstrtoll ''12x'' 10 t = (- EINVAL, t)" for t
    by (simp add: kstrtoll_unsigned_branch [where t = 0] b EINVAL_nonzero)
  have d: "fst (kstrtobool (Some ''maybe'') True) \<noteq> 0"
    by (simp add: kstrtobool_def EINVAL_nonzero)
  have e: "0 < EINVAL" by (simp add: EINVAL_def)
  show ?thesis
    using error_leaves_slot [of "''12x''" 10 7 "7 :: 64 word" 7 7 7 "Some ''maybe''" True]
    by (simp add: a b c d e wrapper_defs EINVAL_nonzero)
qed

section \<open>The boolean parser\<close>

lemma cstr_at_take2: "i < 2 \<Longrightarrow> cstr_at (take 2 s) i = cstr_at s i"
  by (auto simp: cstr_at_def)


text \<open>
  C9. \<open>kstrtobool\<close>: a first character \<open>y\<close>, \<open>Y\<close> or \<open>1\<close> yields true; \<open>n\<close>, \<open>N\<close> or \<open>0\<close>
  yields false; \<open>o\<close>/\<open>O\<close> followed by \<open>n\<close>/\<open>N\<close> yields true and followed by \<open>f\<close>/\<open>F\<close>
  yields false, whatever follows; every other input, the empty string and the null
  pointer included, fails with \<open>-EINVAL\<close> and leaves the slot alone; the result only
  depends on the first two characters. \<open>On\<close> and \<open>Y\<close> give true, \<open>OFF\<close> and \<open>0\<close> give
  false, \<open>x\<close> fails with \<open>-EINVAL\<close>.
\<close>

theorem kstrtobool_table:
  "(c \<in> {CHR ''y'', CHR ''Y'', CHR ''1''} \<longrightarrow> kstrtobool (Some (c # t)) r = (0, True))
   \<and> (c \<in> {CHR ''n'', CHR ''N'', CHR ''0''} \<longrightarrow> kstrtobool (Some (c # t)) r = (0, False))
   \<and> (c \<in> {CHR ''o'', CHR ''O''} \<and> d \<in> {CHR ''n'', CHR ''N''} \<longrightarrow>
        kstrtobool (Some (c # d # t)) r = (0, True))
   \<and> (c \<in> {CHR ''o'', CHR ''O''} \<and> d \<in> {CHR ''f'', CHR ''F''} \<longrightarrow>
        kstrtobool (Some (c # d # t)) r = (0, False))
   \<and> (cstr_at s 0 \<notin> {CHR ''y'', CHR ''Y'', CHR ''1'', CHR ''n'', CHR ''N'', CHR ''0''}
        \<and> \<not> (cstr_at s 0 \<in> {CHR ''o'', CHR ''O''}
              \<and> cstr_at s 1 \<in> {CHR ''n'', CHR ''N'', CHR ''f'', CHR ''F''}) \<longrightarrow>
        kstrtobool (Some s) r = (- EINVAL, r))
   \<and> kstrtobool (Some []) r = (- EINVAL, r)
   \<and> kstrtobool None r = (- EINVAL, r)
   \<and> kstrtobool (Some s) r = kstrtobool (Some (take 2 s)) r
   \<and> kstrtobool (Some ''On'') r = (0, True)
   \<and> kstrtobool (Some ''OFF'') r = (0, False)
   \<and> kstrtobool (Some ''Y'') r = (0, True)
   \<and> kstrtobool (Some ''0'') r = (0, False)
   \<and> kstrtobool (Some ''x'') r = (- EINVAL, r)"
proof -
  have tk: "kstrtobool (Some s) r = kstrtobool (Some (take 2 s)) r"
    by (simp add: kstrtobool_def cstr_at_take2)
  have other: "kstrtobool (Some s) r = (- EINVAL, r)"
    if "cstr_at s 0 \<notin> {CHR ''y'', CHR ''Y'', CHR ''1'', CHR ''n'', CHR ''N'', CHR ''0''}"
      "\<not> (cstr_at s 0 \<in> {CHR ''o'', CHR ''O''}
          \<and> cstr_at s 1 \<in> {CHR ''n'', CHR ''N'', CHR ''f'', CHR ''F''})"
    using that by (auto simp: kstrtobool_def)
  show ?thesis
    using tk other by (auto simp: kstrtobool_def)
qed

theorem kstrtobool_table_witness:
  "kstrtobool (Some ''yes'') False = (0, True)
   \<and> kstrtobool (Some ''No way'') True = (0, False)
   \<and> kstrtobool (Some ''oNwards'') False = (0, True)
   \<and> kstrtobool (Some ''Offal'') True = (0, False)
   \<and> kstrtobool (Some ''ok'') True = (- EINVAL, True)
   \<and> kstrtobool (Some ''true'') False = (- EINVAL, False)"
proof -
  have a: "kstrtobool (Some ''yes'') False = (0, True)"
    using kstrtobool_table [where c = "CHR ''y''" and t = "''es''" and r = False
        and d = "CHR ''N''" and s = "[]", THEN conjunct1]
    by simp
  have b: "kstrtobool (Some ''No way'') True = (0, False)"
    using kstrtobool_table [where c = "CHR ''N''" and t = "''o way''" and r = True
        and d = "CHR ''f''" and s = "[]", THEN conjunct2, THEN conjunct1]
    by simp
  have c: "kstrtobool (Some ''oNwards'') False = (0, True)"
    using kstrtobool_table [where c = "CHR ''o''" and t = "''wards''" and r = False
        and d = "CHR ''N''" and s = "[]", THEN conjunct2, THEN conjunct2, THEN conjunct1]
    by simp
  have d: "kstrtobool (Some ''Offal'') True = (0, False)"
    using kstrtobool_table [where c = "CHR ''O''" and t = "''fal''" and r = True
        and d = "CHR ''f''" and s = "[]", THEN conjunct2, THEN conjunct2, THEN conjunct2,
        THEN conjunct1]
    by simp
  have e: "kstrtobool (Some ''ok'') True = (- EINVAL, True)"
    using kstrtobool_table [where c = "CHR ''O''" and t = "[]" and r = True
        and d = "CHR ''f''" and s = "''ok''", THEN conjunct2, THEN conjunct2, THEN conjunct2,
        THEN conjunct2, THEN conjunct1]
    by simp
  have f: "kstrtobool (Some ''true'') False = (- EINVAL, False)"
    using kstrtobool_table [where c = "CHR ''O''" and t = "[]" and r = False
        and d = "CHR ''f''" and s = "''true''", THEN conjunct2, THEN conjunct2, THEN conjunct2,
        THEN conjunct2, THEN conjunct1]
    by simp
  show ?thesis using a b c d e f by simp
qed

end
